theory Spec2Isabelle
  imports Main "HOL-Library.Word" "HOL-Library.AList"
begin

unbundle bit_operations_syntax

section \<open>Python strings\<close>

text \<open>
  A Python \<open>str\<close> is modelled as a \<open>string\<close>, one \<open>char\<close> per code point (code points
  below 256). The functions below are the string methods the two downloaders call.
\<close>

type_synonym bytes = "8 word list"

definition py_startswith :: "string \<Rightarrow> string \<Rightarrow> bool" where
  "py_startswith s p = (take (length p) s = p)"

text \<open>\<open>sub in s\<close> on strings.\<close>

fun py_contains :: "string \<Rightarrow> string \<Rightarrow> bool" where
  "py_contains [] sub = (sub = [])"
| "py_contains (c # cs) sub = (if py_startswith (c # cs) sub then True else py_contains cs sub)"

definition lower_char :: "char \<Rightarrow> char" where
  "lower_char c =
     (let n = (of_char c :: nat) in
      if (65 \<le> n \<and> n \<le> 90) \<or> (192 \<le> n \<and> n \<le> 222 \<and> n \<noteq> 215)
      then char_of (n + 32) else c)"

definition py_lower :: "string \<Rightarrow> string" where
  "py_lower s = map lower_char s"

text \<open>\<open>str.isspace\<close> on one character, which is also the class \<open>\s\<close> of \<open>re\<close>.\<close>

definition isspace :: "char \<Rightarrow> bool" where
  "isspace c = ((of_char c :: nat) \<in> set [9, 10, 11, 12, 13, 28, 29, 30, 31, 32, 133, 160])"

definition isdigit :: "char \<Rightarrow> bool" where
  "isdigit c = (48 \<le> (of_char c :: nat) \<and> (of_char c :: nat) \<le> 57)"

definition py_strip :: "string \<Rightarrow> string" where
  "py_strip s = rev (dropWhile isspace (rev (dropWhile isspace s)))"

definition py_lstrip :: "char list \<Rightarrow> string \<Rightarrow> string" where
  "py_lstrip cs s = dropWhile (\<lambda>c. c \<in> set cs) s"

definition py_rstrip :: "char list \<Rightarrow> string \<Rightarrow> string" where
  "py_rstrip cs s = rev (dropWhile (\<lambda>c. c \<in> set cs) (rev s))"

text \<open>
  \<open>s.split()\<close>: the maximal runs of non-whitespace characters. The first argument is
  the token being read, in reverse.
\<close>

fun split_ws :: "string \<Rightarrow> string \<Rightarrow> string list" where
  "split_ws cur [] = (if cur = [] then [] else [rev cur])"
| "split_ws cur (c # cs) =
     (if isspace c then (if cur = [] then split_ws [] cs else rev cur # split_ws [] cs)
      else split_ws (c # cur) cs)"

definition py_split :: "string \<Rightarrow> string list" where
  "py_split s = split_ws [] s"

text \<open>\<open>s.split(c)\<close> for a one-character separator: never the empty list.\<close>

primrec py_split_on :: "char \<Rightarrow> string \<Rightarrow> string list" where
  "py_split_on sep [] = [[]]"
| "py_split_on sep (c # cs) =
     (if c = sep then [] # py_split_on sep cs
      else (case py_split_on sep cs of
              p # ps \<Rightarrow> (c # p) # ps
            | [] \<Rightarrow> [[c]]))"

fun py_join :: "string \<Rightarrow> string list \<Rightarrow> string" where
  "py_join sep [] = []"
| "py_join sep [x] = x"
| "py_join sep (x # y # ys) = x @ sep @ py_join sep (y # ys)"

text \<open>
  \<open>s.replace(old, new)\<close>: every occurrence of \<open>old\<close>, scanning from the left without
  overlap; an empty \<open>old\<close> matches before every character and at the end.
\<close>

fun replace_scan :: "string \<Rightarrow> string \<Rightarrow> string \<Rightarrow> string" where
  "replace_scan old new [] = []"
| "replace_scan old new (c # cs) =
     (if old \<noteq> [] \<and> py_startswith (c # cs) old
      then new @ replace_scan old new (drop (length old - 1) cs)
      else c # replace_scan old new cs)"

definition py_replace :: "string \<Rightarrow> string \<Rightarrow> string \<Rightarrow> string" where
  "py_replace s old new =
     (if old = [] then concat (map (\<lambda>c. new @ [c]) s) @ new else replace_scan old new s)"

text \<open>\<open>url.encode()\<close>: UTF-8.\<close>

definition utf8_char :: "char \<Rightarrow> bytes" where
  "utf8_char c =
     (let n = (of_char c :: nat) in
      if n < 128 then [of_nat n] else [of_nat (192 + n div 64), of_nat (128 + n mod 64)])"

definition py_encode :: "string \<Rightarrow> bytes" where
  "py_encode s = concat (map utf8_char s)"

section \<open>\<open>os.path\<close> (posixpath)\<close>

definition basename :: "string \<Rightarrow> string" where
  "basename p = rev (takeWhile (\<lambda>c. c \<noteq> CHR ''/'') (rev p))"

definition dirname :: "string \<Rightarrow> string" where
  "dirname p =
     (let head = take (length p - length (basename p)) p in
      if head \<noteq> [] \<and> \<not> list_all (\<lambda>c. c = CHR ''/'') head
      then py_rstrip [CHR ''/''] head else head)"

text \<open>
  \<open>os.path.splitext\<close>: the extension starts at the last dot of the last path component,
  unless only dots stand before it in that component.
\<close>

definition splitext :: "string \<Rightarrow> string \<times> string" where
  "splitext p =
     (let f = basename p;
          e = rev (takeWhile (\<lambda>c. c \<noteq> CHR ''.'') (rev f));
          stem = take (length f - length e - 1) f
      in if CHR ''.'' \<in> set f \<and> \<not> list_all (\<lambda>c. c = CHR ''.'') stem
         then (take (length p - length e - 1) p, CHR ''.'' # e)
         else (p, []))"

definition path_join :: "string \<Rightarrow> string \<Rightarrow> string" where
  "path_join a b =
     (if py_startswith b ''/'' then b
      else if a = [] \<or> last a = CHR ''/'' then a @ b
      else a @ ''/'' @ b)"

text \<open>
  \<open>os.path.relpath(p, start)\<close> for a path \<open>p\<close> that was built by joining components
  below \<open>start\<close>: the components that were joined.
\<close>

definition relpath :: "string \<Rightarrow> string \<Rightarrow> string" where
  "relpath p start = drop (length (path_join start [])) p"

section \<open>The interpreter's library\<close>

text \<open>
  \<open>urllib.parse.urlparse\<close>, \<open>mimetypes\<close> and \<open>hashlib.md5\<close> are not code of this
  repository. The downloaders take them as a parameter \<open>lib\<close>, so every general theorem
  below holds whatever they return. \<open>urlparse_path\<close> is \<open>urlparse(url).path\<close> (\<open>None\<close>
  when \<open>urlparse\<close> raises \<open>ValueError\<close>), \<open>guess_type\<close> is \<open>mimetypes.guess_type(url)[0]\<close>,
  and \<open>md5_hexdigest\<close> is \<open>hashlib.md5(url.encode()).hexdigest()\<close>.
\<close>

record pylib =
  urlparse_path :: "string \<Rightarrow> string option"
  guess_type :: "string \<Rightarrow> string option"
  guess_extension :: "string \<Rightarrow> string option"
  md5_hexdigest :: "string \<Rightarrow> string"

subsection \<open>MD5 (RFC 1321)\<close>

definition md5_shifts :: "nat list" where
  "md5_shifts =
     [7, 12, 17, 22, 7, 12, 17, 22, 7, 12, 17, 22, 7, 12, 17, 22,
      5, 9, 14, 20, 5, 9, 14, 20, 5, 9, 14, 20, 5, 9, 14, 20,
      4, 11, 16, 23, 4, 11, 16, 23, 4, 11, 16, 23, 4, 11, 16, 23,
      6, 10, 15, 21, 6, 10, 15, 21, 6, 10, 15, 21, 6, 10, 15, 21]"

definition md5_consts :: "32 word list" where
  "md5_consts =
     [0xd76aa478, 0xe8c7b756, 0x242070db, 0xc1bdceee, 0xf57c0faf, 0x4787c62a, 0xa8304613,
      0xfd469501, 0x698098d8, 0x8b44f7af, 0xffff5bb1, 0x895cd7be, 0x6b901122, 0xfd987193,
      0xa679438e, 0x49b40821, 0xf61e2562, 0xc040b340, 0x265e5a51, 0xe9b6c7aa, 0xd62f105d,
      0x02441453, 0xd8a1e681, 0xe7d3fbc8, 0x21e1cde6, 0xc33707d6, 0xf4d50d87, 0x455a14ed,
      0xa9e3e905, 0xfcefa3f8, 0x676f02d9, 0x8d2a4c8a, 0xfffa3942, 0x8771f681, 0x6d9d6122,
      0xfde5380c, 0xa4beea44, 0x4bdecfa9, 0xf6bb4b60, 0xbebfbc70, 0x289b7ec6, 0xeaa127fa,
      0xd4ef3085, 0x04881d05, 0xd9d4d039, 0xe6db99e5, 0x1fa27cf8, 0xc4ac5665, 0xf4292244,
      0x432aff97, 0xab9423a7, 0xfc93a039, 0x655b59c3, 0x8f0ccc92, 0xffeff47d, 0x85845dd1,
      0x6fa87e4f, 0xfe2ce6e0, 0xa3014314, 0x4e0811a1, 0xf7537e82, 0xbd3af235, 0x2ad7d2bb,
      0xeb86d391]"

definition rotl32 :: "nat \<Rightarrow> 32 word \<Rightarrow> 32 word" where
  "rotl32 n w = push_bit n w OR drop_bit (32 - n) w"

type_synonym md5_state = "32 word \<times> 32 word \<times> 32 word \<times> 32 word"

definition md5_step :: "32 word list \<Rightarrow> md5_state \<Rightarrow> nat \<Rightarrow> md5_state" where
  "md5_step m st i =
     (case st of (a, b, c, d) \<Rightarrow>
        let (f, g) =
              (if i < 16 then ((b AND c) OR (NOT b AND d), i)
               else if i < 32 then ((d AND b) OR (NOT d AND c), (5 * i + 1) mod 16)
               else if i < 48 then (b XOR c XOR d, (3 * i + 5) mod 16)
               else (c XOR (b OR NOT d), (7 * i) mod 16));
            f' = f + a + md5_consts ! i + m ! g
        in (d, b + rotl32 (md5_shifts ! i) f', b, c))"

fun le_word :: "bytes \<Rightarrow> 32 word" where
  "le_word [] = 0"
| "le_word (b # bs) = ucast b + push_bit 8 (le_word bs)"

fun chunks :: "nat \<Rightarrow> 'a list \<Rightarrow> 'a list list" where
  "chunks n [] = []"
| "chunks n xs = (if n = 0 then [xs] else take n xs # chunks n (drop n xs))"

definition md5_block :: "md5_state \<Rightarrow> bytes \<Rightarrow> md5_state" where
  "md5_block st blk =
     (case st of (a0, b0, c0, d0) \<Rightarrow>
        case foldl (md5_step (map le_word (chunks 4 blk))) st [0..<64] of
          (a, b, c, d) \<Rightarrow> (a0 + a, b0 + b, c0 + c, d0 + d))"

definition md5_pad :: "bytes \<Rightarrow> bytes" where
  "md5_pad msg =
     (let n = length msg;
          zeros = (55 + 64 - n mod 64) mod 64;
          bits = (of_nat (8 * n) :: 64 word)
      in msg @ [0x80] @ replicate zeros 0 @ map (\<lambda>k. ucast (drop_bit (8 * k) bits)) [0..<8])"

definition hex_byte :: "nat \<Rightarrow> string" where
  "hex_byte n = [''0123456789abcdef'' ! (n div 16), ''0123456789abcdef'' ! (n mod 16)]"

definition word_hex_le :: "32 word \<Rightarrow> string" where
  "word_hex_le w = concat (map (\<lambda>k. hex_byte (unat (drop_bit (8 * k) w AND 0xff))) [0..<4])"

definition md5_hex :: "bytes \<Rightarrow> string" where
  "md5_hex msg =
     (case foldl md5_block (0x67452301, 0xefcdab89, 0x98badcfe, 0x10325476)
             (chunks 64 (md5_pad msg)) of
        (a, b, c, d) \<Rightarrow> word_hex_le a @ word_hex_le b @ word_hex_le c @ word_hex_le d)"

subsection \<open>\<open>urlparse(url).path\<close>\<close>

definition scheme_char :: "char \<Rightarrow> bool" where
  "scheme_char c =
     (let n = (of_char c :: nat) in
      (97 \<le> n \<and> n \<le> 122) \<or> (65 \<le> n \<and> n \<le> 90) \<or> (48 \<le> n \<and> n \<le> 57)
      \<or> c \<in> set ''+-.'')"

definition ascii_alpha :: "char \<Rightarrow> bool" where
  "ascii_alpha c =
     (let n = (of_char c :: nat) in (97 \<le> n \<and> n \<le> 122) \<or> (65 \<le> n \<and> n \<le> 90))"

definition split_scheme :: "string \<Rightarrow> string \<times> string" where
  "split_scheme url =
     (let pre = takeWhile (\<lambda>c. c \<noteq> CHR '':'') url in
      if pre \<noteq> [] \<and> length pre < length url \<and> ascii_alpha (hd pre) \<and> list_all scheme_char pre
      then (py_lower pre, drop (Suc (length pre)) url)
      else ([], url))"

definition uses_params :: "string list" where
  "uses_params = ['''', ''ftp'', ''hdl'', ''prospero'', ''http'', ''imap'', ''https'', ''shttp'',
     ''rtsp'', ''rtspu'', ''sip'', ''sips'', ''mms'', ''sftp'', ''tel'']"

definition splitparams :: "string \<Rightarrow> string" where
  "splitparams p =
     take (length p - length (basename p)) p @ takeWhile (\<lambda>c. c \<noteq> CHR '';'') (basename p)"

definition urlparse_model :: "string \<Rightarrow> string option" where
  "urlparse_model url =
     (let url1 = filter (\<lambda>c. c \<notin> set [CHR 0x09, CHR 0x0A, CHR 0x0D])
                   (dropWhile (\<lambda>c. (of_char c :: nat) \<le> 32) url);
          (scheme, rest) = split_scheme url1;
          nodelim = (\<lambda>c. c \<notin> set ''/?#'');
          (netloc, rest1) =
            (if take 2 rest = ''//''
             then (takeWhile nodelim (drop 2 rest), dropWhile nodelim (drop 2 rest))
             else ([], rest));
          path0 = takeWhile (\<lambda>c. c \<noteq> CHR ''?'') (takeWhile (\<lambda>c. c \<noteq> CHR ''#'') rest1);
          path = (if scheme \<in> set uses_params \<and> CHR '';'' \<in> set path0
                  then splitparams path0 else path0)
      in if (CHR ''['' \<in> set netloc) \<noteq> (CHR '']'' \<in> set netloc) then None else Some path)"

subsection \<open>\<open>mimetypes\<close>\<close>

definition types_map :: "(string \<times> string) list" where
  "types_map =
     [(''.css'', ''text/css''), (''.js'', ''text/javascript''), (''.png'', ''image/png''),
      (''.jpg'', ''image/jpeg''), (''.jpeg'', ''image/jpeg''), (''.gif'', ''image/gif''),
      (''.svg'', ''image/svg+xml''), (''.ico'', ''image/vnd.microsoft.icon''),
      (''.pdf'', ''application/pdf''), (''.html'', ''text/html'')]"

definition guess_type_model :: "string \<Rightarrow> string option" where
  "guess_type_model url =
     (case urlparse_model url of
        None \<Rightarrow> None
      | Some p \<Rightarrow> map_of types_map (py_lower (snd (splitext p))))"

definition guess_extension_model :: "string \<Rightarrow> string option" where
  "guess_extension_model ct = map_of (map (\<lambda>(e, t). (t, e)) types_map) ct"

text \<open>
  The library the closed examples run on: MD5 as specified, URL splitting as
  \<open>urllib.parse\<close> does it, and the entries of the built-in MIME table for the file types
  of the examples.
\<close>

definition cpython :: pylib where
  "cpython = \<lparr> urlparse_path = urlparse_model,
               guess_type = guess_type_model,
               guess_extension = guess_extension_model,
               md5_hexdigest = (\<lambda>url. md5_hex (py_encode url)) \<rparr>"

section \<open>The environment and the downloader state\<close>

text \<open>
  One \<open>GET\<close> either raises (connection error, timeout) or yields a status and a body; the
  network answers the \<open>k\<close>-th request for a URL with \<open>get_response net url k\<close>. A \<open>HEAD\<close>
  probe raises or yields the \<open>content-length\<close> header: absent, a text that \<open>int\<close> reads, or a
  text on which \<open>int\<close> raises.
\<close>

datatype error = ValueError | AttributeError

datatype response = Raises | Response nat bytes

datatype content_length = Missing | Length int | Malformed

datatype head_outcome = HeadRaises | HeadOk content_length

record network =
  get_response :: "string \<Rightarrow> nat \<Rightarrow> response"
  head_response :: "string \<Rightarrow> head_outcome"

text \<open>
  The world outside the object: the files and directories under the output root, the
  \<open>GET\<close> requests sent so far and the seconds spent in \<open>asyncio.sleep\<close>. File operations
  themselves are taken to succeed. \<open>downloader\<close> holds the fields of
  \<open>MusicianDownloader\<close>; \<open>WebsiteDownloader\<close> has one more.
\<close>

record world =
  files :: "(string \<times> bytes) list"
  dirs :: "string list"
  requests :: "string list"
  slept :: nat

record downloader = world +
  base_url :: string
  output_dir :: string
  downloaded_urls :: "string list"
  resource_mapping :: "(string \<times> string) list"

record website_downloader = downloader +
  resources_to_download :: "string list"

definition path_exists :: "'a world_scheme \<Rightarrow> string \<Rightarrow> bool" where
  "path_exists st p = (p \<in> set (map fst (files st)) \<or> p \<in> set (dirs st))"

definition makedirs :: "string \<Rightarrow> 'a world_scheme \<Rightarrow> 'a world_scheme" where
  "makedirs d st = st\<lparr>dirs := List.insert d (dirs st)\<rparr>"

definition write_file :: "string \<Rightarrow> bytes \<Rightarrow> 'a world_scheme \<Rightarrow> 'a world_scheme" where
  "write_file p content st = st\<lparr>files := AList.update p content (files st)\<rparr>"

definition send_get :: "string \<Rightarrow> 'a world_scheme \<Rightarrow> 'a world_scheme" where
  "send_get url st = st\<lparr>requests := requests st @ [url]\<rparr>"

definition sleep :: "nat \<Rightarrow> 'a world_scheme \<Rightarrow> 'a world_scheme" where
  "sleep n st = st\<lparr>slept := slept st + n\<rparr>"

definition mapped :: "(string \<times> string) list \<Rightarrow> string \<Rightarrow> bool" where
  "mapped m url = (url \<in> set (map fst m))"

section \<open>\<open>MusicianDownloader\<close>: path allocation\<close>

text \<open>\<open>is_thumbnail\<close>: the bare \<open>except\<close> turns every failure of the probe into \<open>False\<close>.\<close>

definition is_thumbnail :: "network \<Rightarrow> string \<Rightarrow> bool" where
  "is_thumbnail net url =
     (case head_response net url of
        HeadRaises \<Rightarrow> False
      | HeadOk h \<Rightarrow>
          (case h of
             Missing \<Rightarrow> (0 :: int) < 5 * 1024
           | Length sz \<Rightarrow> sz < 5 * 1024
           | Malformed \<Rightarrow> False))"

definition image_exts :: "string list" where
  "image_exts = [''.jpg'', ''.jpeg'', ''.png'', ''.gif'', ''.webp'', ''.svg'']"

definition unique_name :: "pylib \<Rightarrow> string \<Rightarrow> string \<Rightarrow> string" where
  "unique_name lib url filename =
     fst (splitext filename) @ ''_'' @ take 8 (md5_hexdigest lib url)
       @ py_lower (snd (splitext filename))"

definition get_local_path ::
  "pylib \<Rightarrow> network \<Rightarrow> 'a downloader_scheme \<Rightarrow> string \<Rightarrow> error + string option" where
  "get_local_path lib net st url =
     (if url = [] \<or> py_startswith url ''data:'' then Inr None
      else case urlparse_path lib url of
        None \<Rightarrow> Inl ValueError
      | Some parsed_path \<Rightarrow>
          let path = py_lstrip ''/'' parsed_path;
              filename = basename path;
              ext = py_lower (snd (splitext filename));
              subdir =
                (if ext \<in> set [''.css'', ''.scss''] then ''css''
                 else if ext \<in> set [''.js'', ''.jsx'', ''.ts''] then ''js''
                 else if ext \<in> set image_exts
                   then (if is_thumbnail net url then ''images/thumbnails'' else ''images'')
                 else if ext \<in> set [''.woff'', ''.woff2'', ''.ttf'', ''.eot''] then ''fonts''
                 else ''other'')
          in Inr (Some (path_join (path_join (output_dir st) subdir)
                          (unique_name lib url filename))))"

section \<open>\<open>MusicianDownloader\<close>: the fetch task\<close>

text \<open>
  \<open>download_single_resource_loop\<close> is the loop \<open>while retries > 0\<close>. The result is the state
  in which the coroutine returns, and \<open>None\<close> when it never returns. An exception raised
  inside \<open>try\<close> (by the request, or by \<open>urlparse\<close> in \<open>get_local_path\<close>) reaches the handler,
  which alone counts \<open>retries\<close> down and sleeps.
\<close>

partial_function (option) download_single_resource_loop ::
  "pylib \<Rightarrow> network \<Rightarrow> string \<Rightarrow> nat \<Rightarrow> downloader \<Rightarrow> downloader option" where
  "download_single_resource_loop lib net url retries st =
     (if retries > 0 then
        (if py_startswith url ''data:'' \<or> mapped (resource_mapping st) url then Some st
         else
           let st1 = send_get url st in
           case get_response net url (count_list (requests st) url) of
             Raises \<Rightarrow> download_single_resource_loop lib net url (retries - 1) (sleep 1 st1)
           | Response status content \<Rightarrow>
               if status = 200 then
                 (if length content > 0 then
                    (case get_local_path lib net st1 url of
                       Inl e \<Rightarrow>
                         download_single_resource_loop lib net url (retries - 1) (sleep 1 st1)
                     | Inr None \<Rightarrow> Some st1
                     | Inr (Some local_path) \<Rightarrow>
                         Some ((write_file local_path content (makedirs (dirname local_path) st1))
                                 \<lparr>resource_mapping :=
                                    AList.update url (relpath local_path (output_dir st1))
                                      (resource_mapping st1)\<rparr>))
                  else Some st1)
               else if status = 404 then Some st1
               else download_single_resource_loop lib net url retries st1)
      else Some st)"

declare download_single_resource_loop.simps [code]

definition download_single_resource ::
  "pylib \<Rightarrow> network \<Rightarrow> string \<Rightarrow> downloader \<Rightarrow> downloader option" where
  "download_single_resource lib net url st = download_single_resource_loop lib net url 3 st"

section \<open>\<open>WebsiteDownloader\<close>: classification, allocation and fetch\<close>

text \<open>
  \<open>get_file_type_info\<close> of \<open>WebsiteDownloader\<close>; the result \<open>None, None\<close> is \<open>None\<close>.
\<close>

definition get_file_type_info ::
  "pylib \<Rightarrow> string option \<Rightarrow> string \<Rightarrow> (string \<times> string) option" where
  "get_file_type_info lib content_type path =
     (case content_type of
        Some (c # cs) \<Rightarrow>
          let ct = c # cs in
          if py_startswith ct ''image/''
            then Some (''images'',
                   (case guess_extension lib ct of Some (e # es) \<Rightarrow> e # es | _ \<Rightarrow> ''.jpg''))
          else if py_startswith ct ''text/css'' then Some (''css'', ''.css'')
          else if py_startswith ct ''application/javascript'' \<or> py_startswith ct ''text/javascript''
            then Some (''js'', ''.js'')
          else if py_startswith ct ''font/'' \<or> py_startswith ct ''application/font''
            then Some (''fonts'', ''.woff'')
          else Some (''other'', [])
      | _ \<Rightarrow>
          let ext = snd (splitext path) in
          if ext \<in> set [''.css''] then Some (''css'', ext)
          else if ext \<in> set [''.js''] then Some (''js'', ext)
          else if ext \<in> set [''.png'', ''.jpg'', ''.jpeg'', ''.gif'', ''.svg'', ''.webp'', ''.ico'']
            then Some (''images'', ext)
          else if ext \<in> set [''.woff'', ''.woff2'', ''.ttf'', ''.eot'', ''.otf'']
            then Some (''fonts'', ext)
          else None)"

text \<open>\<open>re.sub(r't=\d+', '', url)\<close>.\<close>

function re_sub_t :: "string \<Rightarrow> string" where
  "re_sub_t [] = []"
| "re_sub_t [a] = [a]"
| "re_sub_t [a, b] = [a, b]"
| "re_sub_t (a # b # c # rest) =
     (if a = CHR ''t'' \<and> b = CHR ''='' \<and> isdigit c then re_sub_t (dropWhile isdigit rest)
      else a # re_sub_t (b # c # rest))"
  by pat_completeness auto
termination
  by (relation "measure length") (auto intro: le_imp_less_Suc le_SucI length_dropWhile_le)

text \<open>
  The URL that \<open>download_resource\<close> requests and maps: a leading slash is resolved
  against the CDN, and \<open>t=<digits>\<close> parameters are removed.
\<close>

definition clean_url :: "string \<Rightarrow> string" where
  "clean_url url0 =
     (let url1 = (if py_startswith url0 ''/'' then ''https://static.tildacdn.net'' @ url0
                  else url0)
      in if py_contains url1 ''t='' then py_rstrip ''?&'' (re_sub_t url1) else url1)"

text \<open>The URL conventions by which \<open>WebsiteDownloader\<close> takes an image for a thumbnail.\<close>

definition is_thumbnail_url :: "string \<Rightarrow> bool" where
  "is_thumbnail_url url =
     (py_contains url ''thb.tildacdn.net'' \<or> py_contains url ''/20x/''
      \<or> py_contains url ''/-/resize'')"

text \<open>
  \<open>download_resource\<close> up to its first \<open>await\<close>: either it returns at once, or it is about
  to request \<open>url\<close> for the file \<open>full_path\<close>, which it will map as \<open>local_path\<close>.
\<close>

datatype start_result = Return string | Fetch string string string

definition download_resource_start ::
  "pylib \<Rightarrow> string \<Rightarrow> website_downloader \<Rightarrow> start_result \<times> website_downloader" where
  "download_resource_start lib url0 st =
     (case urlparse_path lib url0 of
        None \<Rightarrow> (Return url0, st)
      | Some parsed_path \<Rightarrow>
          let url = clean_url url0 in
          if url = base_url st \<or> py_startswith url ''data:'' then (Return url, st)
          else
            let name0 = takeWhile (\<lambda>c. c \<noteq> CHR ''?'') (basename parsed_path);
                original_filename = (if name0 = [] then ''index'' else name0);
                content_type = guess_type lib url
            in
            case get_file_type_info lib content_type parsed_path of
              None \<Rightarrow> (Return url, st)
            | Some (subdir0, ext) \<Rightarrow>
                let subdir = (if is_thumbnail_url url \<and> subdir0 = ''images''
                              then ''images/thumbnails'' else subdir0);
                    url_hash = take 8 (md5_hexdigest lib url);
                    base_filename = fst (splitext original_filename);
                    filename =
                      (if original_filename = ''noroot.png'' then ''noroot_'' @ url_hash @ ext
                       else if path_exists st
                                 (path_join (output_dir st) (path_join subdir (base_filename @ ext)))
                               \<or> path_join subdir (base_filename @ ext)
                                   \<in> set (map snd (resource_mapping st))
                         then base_filename @ ''_'' @ url_hash @ ext
                       else base_filename @ ext);
                    local_path = path_join subdir filename;
                    full_path = path_join (output_dir st) local_path;
                    st1 = makedirs (dirname full_path) st
                in
                if url \<notin> set (downloaded_urls st1) then (Fetch url local_path full_path, st1)
                else (Return local_path, st1))"

text \<open>
  The loop \<open>for attempt in range(max_retries)\<close>, by the number of attempts left; the last
  attempt is the one with \<open>attempt == max_retries - 1\<close>.
\<close>

fun download_resource_attempts ::
  "network \<Rightarrow> string \<Rightarrow> string \<Rightarrow> string \<Rightarrow> nat \<Rightarrow> nat \<Rightarrow> website_downloader
     \<Rightarrow> string \<times> website_downloader" where
  "download_resource_attempts net url local_path full_path retry_delay 0 st = (local_path, st)"
| "download_resource_attempts net url local_path full_path retry_delay (Suc left) st =
     (let st1 = send_get url st in
      case get_response net url (count_list (requests st) url) of
        Raises \<Rightarrow>
          if left = 0 then (url, st1)
          else download_resource_attempts net url local_path full_path retry_delay left
                 (sleep retry_delay st1)
      | Response status content \<Rightarrow>
          if status = 200
          then (local_path,
                (write_file full_path content st1)
                  \<lparr>downloaded_urls := List.insert url (downloaded_urls st1),
                   resource_mapping := AList.update url local_path (resource_mapping st1)\<rparr>)
          else download_resource_attempts net url local_path full_path retry_delay left st1)"

definition download_resource_finish ::
  "network \<Rightarrow> start_result \<Rightarrow> website_downloader \<Rightarrow> string \<times> website_downloader" where
  "download_resource_finish net r st =
     (case r of
        Return v \<Rightarrow> (v, st)
      | Fetch url local_path full_path \<Rightarrow>
          download_resource_attempts net url local_path full_path 1 3 st)"

text \<open>\<open>download_resource\<close> run on its own, with \<open>max_retries=3\<close> and \<open>retry_delay=1\<close>.\<close>

definition download_resource ::
  "pylib \<Rightarrow> network \<Rightarrow> string \<Rightarrow> website_downloader \<Rightarrow> string \<times> website_downloader" where
  "download_resource lib net url st =
     (case download_resource_start lib url st of (r, st1) \<Rightarrow> download_resource_finish net r st1)"

text \<open>
  \<open>await asyncio.gather(*tasks)\<close> in \<open>download_website\<close>. No \<open>await\<close> stands in
  \<open>download_resource\<close> before \<open>session.get\<close>, so the event loop runs every task up to its
  request before the first response is there: all tasks start, then they finish.
\<close>

fun start_all ::
  "pylib \<Rightarrow> string list \<Rightarrow> website_downloader \<Rightarrow> start_result list \<times> website_downloader" where
  "start_all lib [] st = ([], st)"
| "start_all lib (url # urls) st =
     (case download_resource_start lib url st of
        (r, st1) \<Rightarrow> (case start_all lib urls st1 of (rs, st2) \<Rightarrow> (r # rs, st2)))"

fun finish_all ::
  "network \<Rightarrow> start_result list \<Rightarrow> website_downloader \<Rightarrow> string list \<times> website_downloader" where
  "finish_all net [] st = ([], st)"
| "finish_all net (r # rs) st =
     (case download_resource_finish net r st of
        (v, st1) \<Rightarrow> (case finish_all net rs st1 of (vs, st2) \<Rightarrow> (v # vs, st2)))"

definition gather_download_resource ::
  "pylib \<Rightarrow> network \<Rightarrow> string list \<Rightarrow> website_downloader \<Rightarrow> string list \<times> website_downloader" where
  "gather_download_resource lib net resources st =
     (case start_all lib resources st of (rs, st1) \<Rightarrow> finish_all net rs st1)"

section \<open>Documents\<close>

text \<open>
  The parsed document (\<open>BeautifulSoup(content, 'html.parser')\<close>) is a forest of nodes; an
  element carries its tag name, its attributes in order, and its children. Parsing and
  printing belong to the library. \<open>find_all\<close> lists elements in document order, parent
  before children, which is the order of the traversals below.
\<close>

datatype node = Element string "(string \<times> string) list" "node list" | Text string

type_synonym attrs = "(string \<times> string) list"

fun map_elements :: "(string \<Rightarrow> attrs \<Rightarrow> attrs) \<Rightarrow> node list \<Rightarrow> node list" where
  "map_elements f [] = []"
| "map_elements f (Text t # ns) = Text t # map_elements f ns"
| "map_elements f (Element tag as cs # ns) =
     Element tag (f tag as) (map_elements f cs) # map_elements f ns"

text \<open>A pass whose step may raise: the first exception ends it.\<close>

fun try_map_elements ::
  "(string \<Rightarrow> attrs \<Rightarrow> error + attrs) \<Rightarrow> node list \<Rightarrow> error + node list" where
  "try_map_elements f [] = Inr []"
| "try_map_elements f (Text t # ns) =
     (case try_map_elements f ns of Inl e \<Rightarrow> Inl e | Inr ns' \<Rightarrow> Inr (Text t # ns'))"
| "try_map_elements f (Element tag as cs # ns) =
     (case f tag as of
        Inl e \<Rightarrow> Inl e
      | Inr as' \<Rightarrow>
          (case try_map_elements f cs of
             Inl e \<Rightarrow> Inl e
           | Inr cs' \<Rightarrow>
               (case try_map_elements f ns of
                  Inl e \<Rightarrow> Inl e
                | Inr ns' \<Rightarrow> Inr (Element tag as' cs' # ns'))))"

text \<open>A pass whose step reads and writes the downloader and may raise.\<close>

fun traverse ::
  "('s \<Rightarrow> string \<Rightarrow> attrs \<Rightarrow> (error + attrs) \<times> 's) \<Rightarrow> 's \<Rightarrow> node list
     \<Rightarrow> (error + node list) \<times> 's" where
  "traverse f s [] = (Inr [], s)"
| "traverse f s (Text t # ns) =
     (case traverse f s ns of
        (Inl e, s1) \<Rightarrow> (Inl e, s1)
      | (Inr ns', s1) \<Rightarrow> (Inr (Text t # ns'), s1))"
| "traverse f s (Element tag as cs # ns) =
     (case f s tag as of
        (Inl e, s1) \<Rightarrow> (Inl e, s1)
      | (Inr as', s1) \<Rightarrow>
          (case traverse f s1 cs of
             (Inl e, s2) \<Rightarrow> (Inl e, s2)
           | (Inr cs', s2) \<Rightarrow>
               (case traverse f s2 ns of
                  (Inl e, s3) \<Rightarrow> (Inl e, s3)
                | (Inr ns', s3) \<Rightarrow> (Inr (Element tag as' cs' # ns'), s3))))"

text \<open>\<open>decompose()\<close> on every element that satisfies \<open>p\<close>.\<close>

fun decompose_all :: "(string \<Rightarrow> attrs \<Rightarrow> bool) \<Rightarrow> node list \<Rightarrow> node list" where
  "decompose_all p [] = []"
| "decompose_all p (Text t # ns) = Text t # decompose_all p ns"
| "decompose_all p (Element tag as cs # ns) =
     (if p tag as then decompose_all p ns
      else Element tag as (decompose_all p cs) # decompose_all p ns)"

text \<open>\<open>soup.find(tag)\<close> followed by a change of the element found; \<open>None\<close> when there is none.\<close>

fun modify_first :: "string \<Rightarrow> (node \<Rightarrow> node) \<Rightarrow> node list \<Rightarrow> node list option" where
  "modify_first t g [] = None"
| "modify_first t g (Text x # ns) = map_option ((#) (Text x)) (modify_first t g ns)"
| "modify_first t g (Element tag as cs # ns) =
     (if tag = t then Some (g (Element tag as cs) # ns)
      else (case modify_first t g cs of
              Some cs' \<Rightarrow> Some (Element tag as cs' # ns)
            | None \<Rightarrow> map_option ((#) (Element tag as cs)) (modify_first t g ns)))"

fun insert_child :: "node \<Rightarrow> node \<Rightarrow> node" where
  "insert_child c (Element tag as cs) = Element tag as (c # cs)"
| "insert_child c (Text t) = Text t"

fun append_child :: "node \<Rightarrow> node \<Rightarrow> node" where
  "append_child c (Element tag as cs) = Element tag as (cs @ [c])"
| "append_child c (Text t) = Text t"

section \<open>Rewriting references\<close>

text \<open>\<open>if element.get(a): url = element[a]; if url in mapping: element[a] = mapping[url]\<close>.\<close>

definition rewrite_attr :: "(string \<times> string) list \<Rightarrow> string \<Rightarrow> attrs \<Rightarrow> attrs" where
  "rewrite_attr m a as =
     (case map_of as a of
        Some (c # cs) \<Rightarrow>
          (case map_of m (c # cs) of Some l \<Rightarrow> AList.update a l as | None \<Rightarrow> as)
      | _ \<Rightarrow> as)"

text \<open>
  The loop over the entries of a \<open>srcset\<close>. Unpacking \<open>src, *desc\<close> raises \<open>ValueError\<close>
  on an entry without a token.
\<close>

fun srcset_loop ::
  "(string \<times> string) list \<Rightarrow> string list \<Rightarrow> string list \<Rightarrow> error + string list" where
  "srcset_loop m new_srcset [] = Inr new_srcset"
| "srcset_loop m new_srcset (src_desc # rest) =
     (case py_split (py_strip src_desc) of
        [] \<Rightarrow> Inl ValueError
      | src # desc \<Rightarrow>
          (case map_of m src of
             Some l \<Rightarrow> srcset_loop m (new_srcset @ [l @ '' '' @ py_join '' '' desc]) rest
           | None \<Rightarrow> srcset_loop m new_srcset rest))"

text \<open>The new value of the \<open>srcset\<close> attribute: the old one when \<open>new_srcset\<close> is empty.\<close>

definition rewrite_srcset :: "(string \<times> string) list \<Rightarrow> string \<Rightarrow> error + string" where
  "rewrite_srcset m srcset =
     (case srcset_loop m [] (py_split_on CHR '','' srcset) of
        Inl e \<Rightarrow> Inl e
      | Inr new_srcset \<Rightarrow>
          Inr (if new_srcset \<noteq> [] then py_join '', '' new_srcset else srcset))"

text \<open>
  One row \<open>(tag, attr)\<close> of the table of references, applied to one element. \<open>srcset\<close> is
  true for the row whose \<open>attr\<close> is \<open>{'src', 'srcset'}\<close>; each attribute of the set is
  rewritten on its own, so the order in which the set is walked makes no difference.
\<close>

definition update_references ::
  "(string \<times> string) list \<Rightarrow> string \<times> string list \<times> bool \<Rightarrow> string \<Rightarrow> attrs \<Rightarrow> error + attrs" where
  "update_references m row tag as =
     (case row of (row_tag, names, srcset) \<Rightarrow>
        if tag \<noteq> row_tag then Inr as
        else
          (case (case map_of as ''srcset'' of
                   Some (c # cs) \<Rightarrow>
                     if srcset
                     then (case rewrite_srcset m (c # cs) of
                             Inl e \<Rightarrow> Inl e
                           | Inr v \<Rightarrow> Inr (AList.update ''srcset'' v as))
                     else Inr as
                 | _ \<Rightarrow> Inr as) of
             Inl e \<Rightarrow> Inl e
           | Inr as1 \<Rightarrow> Inr (fold (rewrite_attr m) names as1)))"

fun update_all_references ::
  "(string \<times> string) list \<Rightarrow> (string \<times> string list \<times> bool) list \<Rightarrow> node list
     \<Rightarrow> error + node list" where
  "update_all_references m [] doc = Inr doc"
| "update_all_references m (row # rows) doc =
     (case try_map_elements (update_references m row) doc of
        Inl e \<Rightarrow> Inl e
      | Inr doc1 \<Rightarrow> update_all_references m rows doc1)"

text \<open>
  \<open>re.search(r'background-image:\s*url\([\'"]?(.*?)[\'"]?\)', style)\<close>, group 1.
  \<open>lazy_group\<close> is \<open>(.*?)[\'"]?\)\<close>: the shortest run of characters other than a newline
  that is followed by a closing parenthesis, or by a quote and a closing parenthesis.
\<close>

definition is_quote :: "char \<Rightarrow> bool" where
  "is_quote c = (c = CHR 0x27 \<or> c = CHR 0x22)"

fun lazy_group :: "string \<Rightarrow> string option" where
  "lazy_group [] = None"
| "lazy_group (c # cs) =
     (if c = CHR '')'' then Some []
      else if is_quote c \<and> py_startswith cs '')'' then Some []
      else if c = CHR 0x0A then None
      else map_option ((#) c) (lazy_group cs))"

definition match_background_image :: "string \<Rightarrow> string option" where
  "match_background_image s =
     (if py_startswith s ''background-image:''
      then
        let r = dropWhile isspace (drop 17 s) in
        if py_startswith r ''url(''
        then
          (case drop 4 r of
             [] \<Rightarrow> None
           | c # cs \<Rightarrow>
               if is_quote c
               then (case lazy_group cs of Some g \<Rightarrow> Some g | None \<Rightarrow> lazy_group (c # cs))
               else lazy_group (c # cs))
        else None
      else None)"

fun search_background_image :: "string \<Rightarrow> string option" where
  "search_background_image [] = None"
| "search_background_image (c # cs) =
     (case match_background_image (c # cs) of
        Some g \<Rightarrow> Some g
      | None \<Rightarrow> search_background_image cs)"

text \<open>The new value of a \<open>style\<close> attribute that contains \<open>background-image\<close>.\<close>

definition rewrite_style :: "(string \<times> string) list \<Rightarrow> string \<Rightarrow> string" where
  "rewrite_style m style =
     (case search_background_image style of
        None \<Rightarrow> style
      | Some original_url \<Rightarrow>
          (case map_of m original_url of
             None \<Rightarrow> style
           | Some new_url \<Rightarrow> py_replace style original_url new_url))"

definition update_style :: "(string \<times> string) list \<Rightarrow> string \<Rightarrow> attrs \<Rightarrow> attrs" where
  "update_style m tag as =
     (case map_of as ''style'' of
        Some (c # cs) \<Rightarrow>
          if py_contains (c # cs) ''background-image''
          then AList.update ''style'' (rewrite_style m (c # cs)) as
          else as
      | _ \<Rightarrow> as)"

section \<open>\<open>process_html\<close>\<close>

definition musician_rules :: "(string \<times> string list \<times> bool) list" where
  "musician_rules =
     [(''link'', [''href''], False),
      (''script'', [''src''], False),
      (''img'', [''src''], False),
      (''source'', [''src'', ''srcset''], True),
      (''meta'', [''content''], False),
      (''div'', [''data-original'', ''data-content-cover-bg'', ''data-img-zoom'',
                 ''data-img-zoom-url'', ''data-zoomable'', ''data-zoomable-url'',
                 ''data-zoom-target'', ''data-original-item'', ''data-animate-style'',
                 ''data-animate-chain''], False),
      (''a'', [''data-content-popup-img-url''], False)]"

definition viewport_meta :: node where
  "viewport_meta =
     Element ''meta''
       [(''name'', ''viewport''), (''content'', ''width=device-width, initial-scale=1.0'')] []"

text \<open>
  \<open>MusicianDownloader.process_html\<close>. \<open>init_js\<close> is the text of the initialization script,
  a literal of the source. \<open>soup.body.append\<close> raises \<open>AttributeError\<close> on a document with
  no \<open>body\<close>. The result is paired with the downloader as the method leaves it.
\<close>

definition musician_process_html ::
  "string \<Rightarrow> downloader \<Rightarrow> node list \<Rightarrow> (error + node list) \<times> downloader" where
  "musician_process_html init_js st doc =
     (let doc1 = (case modify_first ''head'' (insert_child viewport_meta) doc of
                    Some d \<Rightarrow> d
                  | None \<Rightarrow> doc)
      in case update_all_references (resource_mapping st) musician_rules doc1 of
           Inl e \<Rightarrow> (Inl e, st)
         | Inr doc2 \<Rightarrow>
             (case modify_first ''body'' (append_child (Element ''script'' [] [Text init_js]))
                     (map_elements (update_style (resource_mapping st)) doc2) of
                None \<Rightarrow> (Inl AttributeError, st)
              | Some doc3 \<Rightarrow> (Inr doc3, st)))"

definition website_rules :: "(string \<times> string list \<times> bool) list" where
  "website_rules =
     [(''link'', [''href''], False),
      (''script'', [''src''], False),
      (''img'', [''src''], False),
      (''source'', [''src'', ''srcset''], True),
      (''meta'', [''content''], False),
      (''div'', [''data-original'', ''data-content-cover-bg'', ''data-img-zoom''], False)]"

text \<open>
  The first loop of \<open>WebsiteDownloader.process_html\<close>, on one element: a script of the
  site builder whose URL is not mapped yet is queued, mapped to \<open>js/<basename>\<close> and
  pointed there.
\<close>

definition localize_script ::
  "pylib \<Rightarrow> website_downloader \<Rightarrow> string \<Rightarrow> attrs \<Rightarrow> (error + attrs) \<times> website_downloader" where
  "localize_script lib st tag as =
     (if tag \<noteq> ''script'' then (Inr as, st)
      else case map_of as ''src'' of
        Some (c # cs) \<Rightarrow>
          let src = c # cs in
          if py_contains (py_lower src) ''tilda''
          then
            let url = (if py_startswith src ''http'' then src
                       else ''https://static.tildacdn.net'' @ src)
            in
            if mapped (resource_mapping st) url then (Inr as, st)
            else
              let st1 = st\<lparr>resources_to_download := List.insert url (resources_to_download st)\<rparr>
              in (case urlparse_path lib url of
                    None \<Rightarrow> (Inl ValueError, st1)
                  | Some p \<Rightarrow>
                      (Inr (AList.update ''src'' (''js/'' @ basename p) as),
                       st1\<lparr>resource_mapping :=
                             AList.update url (''js/'' @ basename p) (resource_mapping st1)\<rparr>))
          else (Inr as, st)
      | _ \<Rightarrow> (Inr as, st))"

definition has_value_containing :: "string \<Rightarrow> string \<Rightarrow> attrs \<Rightarrow> bool" where
  "has_value_containing a sub as =
     (case map_of as a of Some (c # cs) \<Rightarrow> py_contains (c # cs) sub | _ \<Rightarrow> False)"

definition remove_tilda_attrs :: "string \<Rightarrow> attrs \<Rightarrow> attrs" where
  "remove_tilda_attrs tag as = filter (\<lambda>(k, v). \<not> py_contains (py_lower k) ''tilda'') as"

text \<open>\<open>WebsiteDownloader.process_html\<close>, paired with the downloader as the method leaves it.\<close>

definition website_process_html ::
  "pylib \<Rightarrow> website_downloader \<Rightarrow> node list \<Rightarrow> (error + node list) \<times> website_downloader" where
  "website_process_html lib st doc =
     (case traverse (localize_script lib) st doc of
        (Inl e, st1) \<Rightarrow> (Inl e, st1)
      | (Inr doc1, st1) \<Rightarrow>
          let doc2 = decompose_all
                       (\<lambda>tag as. tag = ''meta'' \<and> has_value_containing ''content'' ''tildacdn'' as)
                       doc1;
              doc3 = decompose_all
                       (\<lambda>tag as. tag = ''link'' \<and> has_value_containing ''href'' ''tildafavicon'' as)
                       doc2;
              doc4 = map_elements remove_tilda_attrs doc3;
              doc5 = map_elements (update_style (resource_mapping st1)) doc4
          in (update_all_references (resource_mapping st1) website_rules doc5, st1))"

section \<open>Notions of the specification\<close>

text \<open>
  The extensions that \<open>WebsiteDownloader.get_file_type_info\<close> recognises when it has no
  content type, and those that \<open>MusicianDownloader.get_local_path\<close> sorts into a category
  of its own.
\<close>

definition known_exts :: "string list" where
  "known_exts = [''.css'', ''.js'', ''.png'', ''.jpg'', ''.jpeg'', ''.gif'', ''.svg'', ''.webp'',
     ''.ico'', ''.woff'', ''.woff2'', ''.ttf'', ''.eot'', ''.otf'']"

definition musician_exts :: "string list" where
  "musician_exts = [''.css'', ''.scss'', ''.js'', ''.jsx'', ''.ts'', ''.jpg'', ''.jpeg'', ''.png'',
     ''.gif'', ''.webp'', ''.svg'', ''.woff'', ''.woff2'', ''.ttf'', ''.eot'']"

text \<open>
  The regenerated \<open>srcset\<close> in the words of the specification: of the entries, those
  whose URL is mapped, each as its local path followed by its descriptor; the others are
  dropped.
\<close>

definition rewritten_entries :: "(string \<times> string) list \<Rightarrow> string list \<Rightarrow> string list" where
  "rewritten_entries m entries =
     concat (map (\<lambda>e. case py_split (py_strip e) of
                        [] \<Rightarrow> []
                      | src # desc \<Rightarrow>
                          (case map_of m src of
                             Some l \<Rightarrow> [l @ '' '' @ py_join '' '' desc]
                           | None \<Rightarrow> []))
                 entries)"

text \<open>
  The \<open>srcset\<close> attributes of a document, in document order, each with the tag of its
  element.
\<close>

fun srcset_values :: "node list \<Rightarrow> (string \<times> string) list" where
  "srcset_values [] = []"
| "srcset_values (Text t # ns) = srcset_values ns"
| "srcset_values (Element tag as cs # ns) =
     (case map_of as ''srcset'' of Some s \<Rightarrow> [(tag, s)] | None \<Rightarrow> [])
       @ srcset_values cs @ srcset_values ns"

text \<open>
  What becomes of a \<open>srcset\<close>. The list is regenerated when an entry is mapped and kept
  otherwise. On a \<open>source\<close> element with a non-empty \<open>srcset\<close> the regenerated value is
  then looked up as a whole, as the value of any attribute of the table is; the \<open>srcset\<close>
  of every other element stays as it is.
\<close>

definition regenerated_srcset :: "(string \<times> string) list \<Rightarrow> string \<Rightarrow> string" where
  "regenerated_srcset m s =
     (if rewritten_entries m (py_split_on CHR '','' s) = [] then s
      else py_join '', '' (rewritten_entries m (py_split_on CHR '','' s)))"

definition mapped_or_same :: "(string \<times> string) list \<Rightarrow> string \<Rightarrow> string" where
  "mapped_or_same m v =
     (case v of [] \<Rightarrow> v | c # cs \<Rightarrow> (case map_of m v of Some l \<Rightarrow> l | None \<Rightarrow> v))"

definition srcset_after :: "(string \<times> string) list \<Rightarrow> string \<times> string \<Rightarrow> string \<times> string" where
  "srcset_after m ts =
     (case ts of (tag, s) \<Rightarrow>
        (tag, if tag = ''source'' \<and> s \<noteq> [] then mapped_or_same m (regenerated_srcset m s)
              else s))"

text \<open>Every entry of every \<open>srcset\<close> of a \<open>source\<close> element holds a URL.\<close>

definition nonblank_entries :: "string \<Rightarrow> bool" where
  "nonblank_entries s = list_all (\<lambda>e. py_split (py_strip e) \<noteq> []) (py_split_on CHR '','' s)"

definition well_formed_srcsets :: "node list \<Rightarrow> bool" where
  "well_formed_srcsets doc =
     list_all (\<lambda>(tag, s). if tag = ''source'' \<and> s \<noteq> [] then nonblank_entries s else True)
       (srcset_values doc)"

text \<open>The elements that \<open>WebsiteDownloader.process_html\<close> removes from the document.\<close>

definition removed_by_website :: "string \<Rightarrow> attrs \<Rightarrow> bool" where
  "removed_by_website tag as =
     ((tag = ''meta'' \<and> has_value_containing ''content'' ''tildacdn'' as)
      \<or> (tag = ''link'' \<and> has_value_containing ''href'' ''tildafavicon'' as))"

text \<open>
  The scripts of the site builder in a document, by the URL under which
  \<open>WebsiteDownloader.process_html\<close> maps them, in document order; and what its first loop
  does to the downloader, as a loop over these URLs. The flag is false when \<open>urlparse\<close>
  raised and ended the loop.
\<close>

definition script_url :: "string \<Rightarrow> attrs \<Rightarrow> string list" where
  "script_url tag as =
     (if tag \<noteq> ''script'' then []
      else case map_of as ''src'' of
        Some (c # cs) \<Rightarrow>
          if py_contains (py_lower (c # cs)) ''tilda''
          then [if py_startswith (c # cs) ''http'' then c # cs
                else ''https://static.tildacdn.net'' @ c # cs]
          else []
      | _ \<Rightarrow> [])"

fun script_urls :: "node list \<Rightarrow> string list" where
  "script_urls [] = []"
| "script_urls (Text t # ns) = script_urls ns"
| "script_urls (Element tag as cs # ns) = script_url tag as @ script_urls cs @ script_urls ns"

fun queue_scripts ::
  "pylib \<Rightarrow> string list \<Rightarrow> website_downloader \<Rightarrow> bool \<times> website_downloader" where
  "queue_scripts lib [] st = (True, st)"
| "queue_scripts lib (url # urls) st =
     (if mapped (resource_mapping st) url then queue_scripts lib urls st
      else case urlparse_path lib url of
        None \<Rightarrow>
          (False, st\<lparr>resources_to_download := List.insert url (resources_to_download st)\<rparr>)
      | Some p \<Rightarrow>
          queue_scripts lib urls
            (st\<lparr>resources_to_download := List.insert url (resources_to_download st),
               resource_mapping := AList.update url (''js/'' @ basename p) (resource_mapping st)\<rparr>))"

section \<open>Example runs\<close>

text \<open>
  The objects as \<open>download_complete_site\<close> builds them, on an empty output directory, and
  a network that gives every request the same answer.
\<close>

definition fresh_website :: website_downloader where
  "fresh_website =
     \<lparr>files = [], dirs = [], requests = [], slept = 0,
      base_url = ''https://aborovikov.com'', output_dir = ''dist'',
      downloaded_urls = [], resource_mapping = [], resources_to_download = []\<rparr>"

definition fresh_musician :: downloader where
  "fresh_musician =
     \<lparr>files = [], dirs = [''dist/musician''], requests = [], slept = 0,
      base_url = ''https://aborovikov.com/musician'', output_dir = ''dist/musician'',
      downloaded_urls = [], resource_mapping = []\<rparr>"

definition always :: "response \<Rightarrow> head_outcome \<Rightarrow> network" where
  "always r h = \<lparr>get_response = (\<lambda>url k. r), head_response = (\<lambda>url. h)\<rparr>"

text \<open>
  Two documents: a page with a script of the site builder, and a page whose \<open>picture\<close>
  holds three \<open>source\<close> elements and an \<open>img\<close>, with a mapping for it.
\<close>

definition tilda_page :: "node list" where
  "tilda_page =
     [Element ''html'' []
        [Element ''head'' []
           [Element ''script''
              [(''src'', ''https://static.tildacdn.com/js/tilda-scripts-3.0.min.js'')] []],
         Element ''body'' [] [Element ''img'' [(''src'', ''a.jpg'')] []]]]"

definition srcset_page :: "node list" where
  "srcset_page =
     [Element ''html'' []
        [Element ''head'' [] [],
         Element ''body'' []
           [Element ''picture'' []
              [Element ''source'' [(''srcset'', ''a.jpg 1x, b.jpg 2x'')] [],
               Element ''source'' [(''srcset'', ''a.jpg  1x ,b.jpg 2x,  c.jpg   640w'')] [],
               Element ''source'' [(''srcset'', ''d.jpg 2x'')] [],
               Element ''img'' [(''src'', ''a.jpg''), (''srcset'', ''a.jpg 1x'')] []]]]]"

definition srcset_mapping :: "(string \<times> string) list" where
  "srcset_mapping =
     [(''a.jpg'', ''images/a_1.jpg''), (''c.jpg'', ''images/c.jpg''),
      (''d.jpg'', ''e''), (''e 2x'', ''f.jpg'')]"

section \<open>Facts about the state and the examples\<close>

lemma send_get_fields [simp]:
  "resource_mapping (send_get url st) = resource_mapping st"
  "files (send_get url st) = files st"
  "dirs (send_get url st) = dirs st"
  "slept (send_get url st) = slept st"
  "output_dir (send_get url st) = output_dir st"
  "requests (send_get url st) = requests st @ [url]"
  by (simp_all add: send_get_def)

lemma world_fields [simp]:
  "downloaded_urls (send_get url st) = downloaded_urls st"
  "resource_mapping (write_file p c st) = resource_mapping st"
  "downloaded_urls (write_file p c st) = downloaded_urls st"
  "files (write_file p c st) = AList.update p c (files st)"
  "requests (write_file p c st) = requests st"
  by (simp_all add: send_get_def write_file_def)

lemma makedirs_fields [simp]:
  "resource_mapping (makedirs d st) = resource_mapping st"
  "downloaded_urls (makedirs d st) = downloaded_urls st"
  "files (makedirs d st) = files st"
  "requests (makedirs d st) = requests st"
  "output_dir (makedirs d st) = output_dir st"
  "base_url (makedirs d st) = base_url st"
  "dirs (makedirs d st) = List.insert d (dirs st)"
  by (simp_all add: makedirs_def)

text \<open>The MD5 digest of the URL of the examples.\<close>

lemma photo_digest:
  "md5_hexdigest cpython ''https://example.com/a/photo.jpg'' = ''e3ed7d84c06caaec7d387fab30924603''"
  by code_simp

lemma photo_parse: "urlparse_path cpython ''https://example.com/a/photo.jpg'' = Some ''/a/photo.jpg''"
  by code_simp

lemma photo_ext: "py_lower (snd (splitext (basename (py_lstrip ''/'' ''/a/photo.jpg'')))) \<in> set image_exts"
  by code_simp

lemma photo_name: "unique_name cpython ''https://example.com/a/photo.jpg'' (basename (py_lstrip ''/'' ''/a/photo.jpg'')) = ''photo_e3ed7d84.jpg''"
  unfolding unique_name_def photo_digest by code_simp

lemma musician_loop_returns_after_request:
  assumes "\<not> py_startswith url ''data:''" and "\<not> mapped (resource_mapping st) url"
    and "get_response net url (count_list (requests st) url) = Response status content"
    and "status = 404 \<or> (status = 200 \<and> content = [])"
  shows "download_single_resource lib net url st = Some (send_get url st)"
  unfolding download_single_resource_def
  using assms by (subst download_single_resource_loop.simps) auto

lemma attempts_not_200:
  assumes "\<And>k. \<exists>body. get_response net url k = Response 404 body"
  shows "download_resource_attempts net url lp fp d n st
       = (lp, st\<lparr>requests := requests st @ replicate n url\<rparr>)"
proof (induction n arbitrary: st)
  case 0
  show ?case by simp
next
  case (Suc n)
  obtain body where b: "get_response net url (count_list (requests st) url) = Response 404 body"
    using assms by blast
  show ?case
    by (simp add: b Suc.IH send_get_def replicate_app_Cons_same)
qed


lemma musician_loop_other_status_aux:
  assumes ret: "download_single_resource_loop lib net url retries st = Some y"
  shows "(\<forall>k. \<exists>s b. get_response net url k = Response s b \<and> s \<noteq> 200 \<and> s \<noteq> 404) \<longrightarrow>
     (retries = 0 \<or> py_startswith url ''data:'' \<or> mapped (resource_mapping st) url)"
  apply (rule download_single_resource_loop.raw_induct
    [OF _ ret, where P = "\<lambda>lib net url retries st y.
       (\<forall>k. \<exists>s b. get_response net url k = Response s b \<and> s \<noteq> 200 \<and> s \<noteq> 404) \<longrightarrow>
       (retries = 0 \<or> py_startswith url ''data:'' \<or> mapped (resource_mapping st) url)"])
  subgoal premises p for f lib net url retries st y
  proof (intro impI, rule ccontr)
    assume h: "\<forall>k. \<exists>s b. get_response net url k = Response s b \<and> s \<noteq> 200 \<and> s \<noteq> 404"
    assume a: "\<not> (retries = 0 \<or> py_startswith url ''data:'' \<or> mapped (resource_mapping st) url)"
    obtain s b where r: "get_response net url (count_list (requests st) url) = Response s b"
      and s: "s \<noteq> 200" "s \<noteq> 404"
      using h by blast
    from p(2) a r s have "f lib net url retries (send_get url st) = Some y"
      by simp
    from p(1) [OF this] h
    have "retries = 0 \<or> py_startswith url ''data:''
            \<or> mapped (resource_mapping (send_get url st)) url"
      by blast
    with a show False by simp
  qed
  done

lemma musician_loop_other_status:
  assumes "\<forall>k. \<exists>s b. get_response net url k = Response s b \<and> s \<noteq> 200 \<and> s \<noteq> 404"
    and "0 < retries" and "\<not> py_startswith url ''data:''"
    and "\<not> mapped (resource_mapping st) url"
  shows "download_single_resource_loop lib net url retries st = None"
proof (cases "download_single_resource_loop lib net url retries st")
  case None
  then show ?thesis .
next
  case (Some y)
  from musician_loop_other_status_aux [OF Some] assms show ?thesis by blast
qed

lemma get_local_path_image:
  assumes "url \<noteq> []" and "\<not> py_startswith url ''data:''"
    and "urlparse_path lib url = Some p"
    and "py_lower (snd (splitext (basename (py_lstrip ''/'' p)))) \<in> set image_exts"
  shows "get_local_path lib net st url =
           Inr (Some (path_join
                        (path_join (output_dir st)
                           (if is_thumbnail net url then ''images/thumbnails'' else ''images''))
                        (unique_name lib url (basename (py_lstrip ''/'' p)))))"
  using assms by (auto simp add: get_local_path_def image_exts_def Let_def)

lemma thumb_facts:
  "urlparse_path cpython ''https://thb.tildacdn.net/a/-/resize/20x/b.jpg''
     = Some ''/a/-/resize/20x/b.jpg''"
  "basename (py_lstrip ''/'' ''/a/-/resize/20x/b.jpg'') = ''b.jpg''"
  "splitext ''b.jpg'' = (''b'', ''.jpg'')"
  "py_lower ''.jpg'' = ''.jpg''"
  "is_thumbnail_url ''https://thb.tildacdn.net/a/-/resize/20x/b.jpg''"
  by code_simp+

lemma thumb_path:
  "get_local_path cpython (always Raises (HeadOk (Length 51200))) fresh_musician
         ''https://thb.tildacdn.net/a/-/resize/20x/b.jpg''
       = Inr (Some (''dist/musician/images/b_''
                      @ take 8 (md5_hexdigest cpython ''https://thb.tildacdn.net/a/-/resize/20x/b.jpg'')
                      @ ''.jpg''))"
  by (subst get_local_path_image [where p = "''/a/-/resize/20x/b.jpg''"])
     (simp_all add: thumb_facts image_exts_def py_startswith_def is_thumbnail_def always_def
        unique_name_def fresh_musician_def path_join_def)

lemma start_new_file:
  assumes "urlparse_path lib url = Some p"
    and "\<not> py_startswith url ''/''" and "\<not> py_contains url ''t=''"
    and "url \<noteq> base_url st" and "\<not> py_startswith url ''data:''"
    and "get_file_type_info lib (guess_type lib url) p = Some (subdir, ext)"
    and "\<not> is_thumbnail_url url"
    and "takeWhile (\<lambda>c. c \<noteq> CHR ''?'') (basename p) = name"
    and "name \<noteq> []" and "name \<noteq> ''noroot.png''"
    and "local_path = path_join subdir (fst (splitext name) @ ext)"
    and "full_path = path_join (output_dir st) local_path"
    and "\<not> path_exists st full_path"
    and "local_path \<notin> set (map snd (resource_mapping st))"
    and "url \<notin> set (downloaded_urls st)"
  shows "download_resource_start lib url st
       = (Fetch url local_path full_path, makedirs (dirname full_path) st)"
  using assms by (simp add: download_resource_start_def clean_url_def Let_def)

lemma logo_facts:
  "urlparse_path cpython ''https://a.example/logo.png'' = Some ''/logo.png''"
  "urlparse_path cpython ''https://b.example/logo.png'' = Some ''/logo.png''"
  "\<not> py_contains ''https://a.example/logo.png'' ''t=''"
  "\<not> py_contains ''https://b.example/logo.png'' ''t=''"
  "get_file_type_info cpython (guess_type cpython ''https://a.example/logo.png'') ''/logo.png''
     = Some (''images'', ''.png'')"
  "get_file_type_info cpython (guess_type cpython ''https://b.example/logo.png'') ''/logo.png''
     = Some (''images'', ''.png'')"
  "\<not> is_thumbnail_url ''https://a.example/logo.png''"
  "\<not> is_thumbnail_url ''https://b.example/logo.png''"
  "takeWhile (\<lambda>c. c \<noteq> CHR ''?'') (basename ''/logo.png'') = ''logo.png''"
  "path_join ''images'' (fst (splitext ''logo.png'') @ ''.png'') = ''images/logo.png''"
  "path_join ''dist'' ''images/logo.png'' = ''dist/images/logo.png''"
  "dirname ''dist/images/logo.png'' = ''dist/images''"
  by code_simp+

lemma logo_start_a:
  assumes "output_dir st = ''dist''" and "base_url st = ''https://aborovikov.com''"
    and "\<not> path_exists st ''dist/images/logo.png''"
    and "''images/logo.png'' \<notin> set (map snd (resource_mapping st))"
    and "''https://a.example/logo.png'' \<notin> set (downloaded_urls st)"
  shows "download_resource_start cpython ''https://a.example/logo.png'' st
       = (Fetch ''https://a.example/logo.png'' ''images/logo.png'' ''dist/images/logo.png'',
          makedirs ''dist/images'' st)"
  using assms
  by (subst start_new_file [where p = "''/logo.png''" and name = "''logo.png''"
        and subdir = "''images''" and ext = "''.png''" and local_path = "''images/logo.png''"
        and full_path = "''dist/images/logo.png''"])
     (simp_all add: logo_facts py_startswith_def)

lemma logo_start_b:
  assumes "output_dir st = ''dist''" and "base_url st = ''https://aborovikov.com''"
    and "\<not> path_exists st ''dist/images/logo.png''"
    and "''images/logo.png'' \<notin> set (map snd (resource_mapping st))"
    and "''https://b.example/logo.png'' \<notin> set (downloaded_urls st)"
  shows "download_resource_start cpython ''https://b.example/logo.png'' st
       = (Fetch ''https://b.example/logo.png'' ''images/logo.png'' ''dist/images/logo.png'',
          makedirs ''dist/images'' st)"
  using assms
  by (subst start_new_file [where p = "''/logo.png''" and name = "''logo.png''"
        and subdir = "''images''" and ext = "''.png''" and local_path = "''images/logo.png''"
        and full_path = "''dist/images/logo.png''"])
     (simp_all add: logo_facts py_startswith_def)

lemma logo_start:
  "download_resource_start cpython ''https://a.example/logo.png'' fresh_website
   = (Fetch ''https://a.example/logo.png'' ''images/logo.png'' ''dist/images/logo.png'',
      fresh_website\<lparr>dirs := [''dist/images'']\<rparr>)"
  by (subst logo_start_a) (simp_all add: fresh_website_def path_exists_def makedirs_def)

lemma re_sub_t_keeps_data:
  assumes "py_startswith s ''data:''"
  shows "py_startswith (re_sub_t s) ''data:''"
proof -
  from assms obtain r where s: "s = ''data:'' @ r"
    by (metis append_take_drop_id py_startswith_def)
  show ?thesis
    by (cases r rule: re_sub_t.cases) (simp_all add: s py_startswith_def)
qed

lemma py_rstrip_keeps_data:
  assumes "py_startswith s ''data:''"
  shows "py_startswith (py_rstrip ''?&'' s) ''data:''"
proof -
  from assms obtain r where s: "s = ''data:'' @ r"
    by (metis append_take_drop_id py_startswith_def)
  have "py_rstrip ''?&'' s = ''data:'' @ py_rstrip ''?&'' r"
    by (simp add: s py_rstrip_def dropWhile_append)
  then show ?thesis by (simp add: py_startswith_def)
qed

lemma clean_url_keeps_data:
  assumes "py_startswith url ''data:''"
  shows "py_startswith (clean_url url) ''data:''"
proof -
  from assms obtain r where "url = ''data:'' @ r"
    by (metis append_take_drop_id py_startswith_def)
  then have "\<not> py_startswith url ''/''"
    by (simp add: py_startswith_def)
  then show ?thesis
    using assms by (simp add: clean_url_def re_sub_t_keeps_data py_rstrip_keeps_data)
qed

lemma get_file_type_info_None:
  "get_file_type_info lib None path = None \<longleftrightarrow> snd (splitext path) \<notin> set known_exts"
  by (auto simp add: get_file_type_info_def known_exts_def Let_def)

lemma get_file_type_info_Some:
  assumes "ct \<noteq> []"
  shows "get_file_type_info lib (Some ct) path \<noteq> None"
    and "get_file_type_info lib (Some ct) path = get_file_type_info lib (Some ct) path'"
  using assms by (cases ct; simp add: get_file_type_info_def Let_def)+

lemma start_skips_unclassified:
  assumes "urlparse_path lib url0 = Some p"
    and "get_file_type_info lib (guess_type lib (clean_url url0)) p = None"
  shows "download_resource lib net url0 st = (clean_url url0, st)"
  using assms
  by (simp add: download_resource_def download_resource_start_def download_resource_finish_def
      Let_def)

lemma start_skips_data:
  assumes "py_startswith url0 ''data:''"
  shows "download_resource lib net url0 st = (clean_url url0, st)
       \<or> download_resource lib net url0 st = (url0, st)"
  using clean_url_keeps_data [OF assms]
  by (simp add: download_resource_def download_resource_start_def download_resource_finish_def
      Let_def split: option.splits)

lemma musician_skips_data:
  assumes "py_startswith url ''data:''"
  shows "download_single_resource lib net url st = Some st"
    and "get_local_path lib net st url = Inr None"
  using assms
  by (simp_all add: download_single_resource_def download_single_resource_loop.simps
      get_local_path_def)

lemma get_local_path_other:
  assumes "url \<noteq> []" and "\<not> py_startswith url ''data:''"
    and "urlparse_path lib url = Some p"
    and "py_lower (snd (splitext (basename (py_lstrip ''/'' p)))) \<notin> set musician_exts"
  shows "get_local_path lib net st url =
           Inr (Some (path_join (path_join (output_dir st) ''other'')
                        (unique_name lib url (basename (py_lstrip ''/'' p)))))"
  using assms by (simp add: get_local_path_def musician_exts_def image_exts_def Let_def)

lemma srcset_loop_rewritten:
  assumes "list_all (\<lambda>e. py_split (py_strip e) \<noteq> []) entries"
  shows "srcset_loop m acc entries = Inr (acc @ rewritten_entries m entries)"
  using assms
proof (induction entries arbitrary: acc)
  case Nil
  show ?case by (simp add: rewritten_entries_def)
next
  case (Cons e es)
  then show ?case
    by (auto simp add: rewritten_entries_def split: list.splits option.splits)
qed



lemma download_facts:
  "urlparse_path cpython ''https://example.com/download'' = Some ''/download''"
  "clean_url ''https://example.com/download'' = ''https://example.com/download''"
  "guess_type cpython ''https://example.com/download'' = None"
  "snd (splitext ''/download'') \<notin> set known_exts"
  "py_lower (snd (splitext (basename (py_lstrip ''/'' ''/download'')))) \<notin> set musician_exts"
  by code_simp+

lemma script_facts:
  "localize_script cpython (fresh_website\<lparr>resource_mapping := m\<rparr>) ''script''
     [(''src'', ''https://static.tildacdn.com/js/tilda-scripts-3.0.min.js'')]
   = (if mapped m ''https://static.tildacdn.com/js/tilda-scripts-3.0.min.js''
      then (Inr [(''src'', ''https://static.tildacdn.com/js/tilda-scripts-3.0.min.js'')],
            fresh_website\<lparr>resource_mapping := m\<rparr>)
      else (Inr [(''src'', ''js/tilda-scripts-3.0.min.js'')],
            fresh_website
              \<lparr>resource_mapping :=
                 AList.update ''https://static.tildacdn.com/js/tilda-scripts-3.0.min.js''
                   ''js/tilda-scripts-3.0.min.js'' m,
               resources_to_download :=
                 [''https://static.tildacdn.com/js/tilda-scripts-3.0.min.js'']\<rparr>))"
proof -
  have a: "py_contains (py_lower ''https://static.tildacdn.com/js/tilda-scripts-3.0.min.js'') ''tilda''"
    "py_startswith ''https://static.tildacdn.com/js/tilda-scripts-3.0.min.js'' ''http''"
    "urlparse_path cpython ''https://static.tildacdn.com/js/tilda-scripts-3.0.min.js''
       = Some ''/js/tilda-scripts-3.0.min.js''"
    "basename ''/js/tilda-scripts-3.0.min.js'' = ''tilda-scripts-3.0.min.js''"
    by code_simp+
  show ?thesis
    by (simp add: localize_script_def a Let_def fresh_website_def)
qed

lemma sleep_fields [simp]:
  "resource_mapping (sleep n st) = resource_mapping st"
  "requests (sleep n st) = requests st"
  "slept (sleep n st) = slept st + n"
  by (simp_all add: sleep_def)

lemma musician_loop_raises_step:
  assumes "get_response net url (count_list (requests st) url) = Raises"
    and "\<not> py_startswith url ''data:''" and "\<not> mapped (resource_mapping st) url"
    and "0 < retries"
  shows "download_single_resource_loop lib net url retries st
       = download_single_resource_loop lib net url (retries - 1) (sleep 1 (send_get url st))"
  using assms by (subst download_single_resource_loop.simps) simp

lemma musician_three_failures:
  assumes r: "\<And>k. get_response net url k = Raises"
    and d: "\<not> py_startswith url ''data:''" and m: "\<not> mapped (resource_mapping st) url"
  shows "download_single_resource lib net url st
       = Some (sleep 1 (send_get url (sleep 1 (send_get url (sleep 1 (send_get url st))))))"
proof -
  have z: "download_single_resource_loop lib net url 0 s = Some s" for s
    by (subst download_single_resource_loop.simps) simp
  show ?thesis
    unfolding download_single_resource_def
    by (simp add: musician_loop_raises_step r d m z numeral_3_eq_3)
qed

lemma basename_no_slash: "CHR ''/'' \<notin> set (basename p)"
  by (auto simp add: basename_def dest: set_takeWhileD)

lemma splitext_stem_subset: "set (fst (splitext f)) \<subseteq> set f"
  by (auto simp add: splitext_def Let_def dest: in_set_takeD)

lemma unique_name_not_absolute:
  "\<not> py_startswith (unique_name lib url (basename p)) ''/''"
proof -
  have "CHR ''/'' \<notin> set (fst (splitext (basename p)))"
    using splitext_stem_subset [of "basename p"] basename_no_slash [of p] by blast
  then show ?thesis
    by (cases "fst (splitext (basename p))") (auto simp add: unique_name_def py_startswith_def)
qed

lemma relpath_join:
  assumes "\<not> py_startswith name ''/''" and "subdir = c # cs" and "c \<noteq> CHR ''/''"
    and "last subdir \<noteq> CHR ''/''"
  shows "relpath (path_join (path_join out subdir) name) out = subdir @ ''/'' @ name"
  using assms by (auto simp add: relpath_def path_join_def py_startswith_def)

lemma musician_fetch_saved:
  assumes "\<not> py_startswith url ''data:''" and "\<not> mapped (resource_mapping st) url"
    and "get_response net url (count_list (requests st) url) = Response 200 content"
    and "content \<noteq> []"
    and "get_local_path lib net (send_get url st) url = Inr (Some local_path)"
  shows "download_single_resource lib net url st
       = Some ((write_file local_path content (makedirs (dirname local_path) (send_get url st)))
                 \<lparr>resource_mapping :=
                    AList.update url (relpath local_path (output_dir st)) (resource_mapping st)\<rparr>)"
  unfolding download_single_resource_def
  using assms by (subst download_single_resource_loop.simps) simp

lemma musician_other_fetched:
  assumes "url \<noteq> []" and "\<not> py_startswith url ''data:''"
    and "\<not> mapped (resource_mapping st) url"
    and "urlparse_path lib url = Some q"
    and "py_lower (snd (splitext (basename (py_lstrip ''/'' q)))) \<notin> set musician_exts"
    and "get_response net url (count_list (requests st) url) = Response 200 content"
    and "content \<noteq> []"
  shows "\<exists>st'. download_single_resource lib net url st = Some st'
          \<and> requests st' = requests st @ [url]
          \<and> map_of (resource_mapping st') url
              = Some (''other/'' @ unique_name lib url (basename (py_lstrip ''/'' q)))"
proof -
  let ?name = "unique_name lib url (basename (py_lstrip ''/'' q))"
  let ?lp = "path_join (path_join (output_dir st) ''other'') ?name"
  have g: "get_local_path lib net (send_get url st) url = Inr (Some ?lp)"
    using get_local_path_other [OF assms(1,2,4,5), of net "send_get url st"] by simp
  have r: "relpath ?lp (output_dir st) = ''other/'' @ ?name"
    using relpath_join [OF unique_name_not_absolute, of "''other''" "CHR ''o''" "''ther''"]
    by simp
  show ?thesis
    by (simp add: musician_fetch_saved [OF assms(2,3,6,7) g] r update_conv' write_file_def
        makedirs_def)
qed

lemma get_file_type_info_other:
  assumes "ct \<noteq> []" and "\<not> py_startswith ct ''image/''" and "\<not> py_startswith ct ''text/css''"
    and "\<not> py_startswith ct ''application/javascript''"
    and "\<not> py_startswith ct ''text/javascript''"
    and "\<not> py_startswith ct ''font/''" and "\<not> py_startswith ct ''application/font''"
  shows "get_file_type_info lib (Some ct) path = Some (''other'', [])"
  using assms by (cases ct) (simp_all add: get_file_type_info_def Let_def)

subsection \<open>The first loop of \<open>WebsiteDownloader.process_html\<close>\<close>

lemma queue_scripts_append:
  "queue_scripts lib (xs @ ys) st =
     (if fst (queue_scripts lib xs st) then queue_scripts lib ys (snd (queue_scripts lib xs st))
      else queue_scripts lib xs st)"
proof (induction xs arbitrary: st)
  case Nil
  show ?case by simp
next
  case (Cons u us)
  show ?case
  proof (cases "mapped (resource_mapping st) u")
    case True
    with Cons.IH [of st] show ?thesis by simp
  next
    case False
    show ?thesis
    proof (cases "urlparse_path lib u")
      case None
      with False show ?thesis by simp
    next
      case (Some p)
      with False Cons.IH show ?thesis by simp
    qed
  qed
qed

lemma localize_script_queue:
  assumes "localize_script lib st tag as = (r, st')"
  shows "queue_scripts lib (script_url tag as) st = (\<not> isl r, st')"
proof (cases "tag = ''script''")
  case False
  with assms show ?thesis by (auto simp add: localize_script_def script_url_def)
next
  case True
  show ?thesis
  proof (cases "map_of as ''src''")
    case None
    with True assms show ?thesis by (auto simp add: localize_script_def script_url_def)
  next
    case (Some src)
    show ?thesis
    proof (cases src)
      case Nil
      with True Some assms show ?thesis by (auto simp add: localize_script_def script_url_def)
    next
      case (Cons c cs)
      show ?thesis
      proof (cases "py_contains (py_lower (c # cs)) ''tilda''")
        case False
        with True Some Cons assms show ?thesis
          by (auto simp add: localize_script_def script_url_def)
      next
        case t: True
        let ?url = "if py_startswith (c # cs) ''http'' then c # cs
                    else ''https://static.tildacdn.net'' @ c # cs"
        have u: "script_url tag as = [?url]"
          using True Some Cons t by (simp add: script_url_def)
        show ?thesis
        proof (cases "mapped (resource_mapping st) ?url")
          case m: True
          with True Some Cons t assms have "r = Inr as \<and> st' = st"
            by (auto simp add: localize_script_def Let_def)
          with m u show ?thesis by simp
        next
          case m: False
          show ?thesis
          proof (cases "urlparse_path lib ?url")
            case None
            with True Some Cons t m assms
            have "r = Inl ValueError
                \<and> st' = st\<lparr>resources_to_download := List.insert ?url (resources_to_download st)\<rparr>"
              by (auto simp add: localize_script_def Let_def)
            with m u None show ?thesis by simp
          next
            case p: (Some p)
            with True Some Cons t m assms
            have "\<not> isl r
                \<and> st' = st\<lparr>resources_to_download := List.insert ?url (resources_to_download st),
                          resource_mapping :=
                            AList.update ?url (''js/'' @ basename p) (resource_mapping st)\<rparr>"
              by (auto simp add: localize_script_def Let_def)
            with m u p show ?thesis by simp
          qed
        qed
      qed
    qed
  qed
qed

lemma traverse_queue:
  assumes "traverse (localize_script lib) st doc = (r, st')"
  shows "queue_scripts lib (script_urls doc) st = (\<not> isl r, st')"
  using assms
proof (induction "localize_script lib" st doc arbitrary: r st' rule: traverse.induct)
  case (1 s)
  then show ?case by auto
next
  case (2 s t ns)
  then show ?case by (auto split: prod.splits sum.splits)
next
  case (3 s tag as cs ns)
  obtain r1 s1 where f: "localize_script lib s tag as = (r1, s1)"
    by (cases "localize_script lib s tag as")
  note q1 = localize_script_queue [OF f]
  show ?case
  proof (cases r1)
    case (Inl e)
    with "3.prems" f have "r = Inl e" and "st' = s1" by simp_all
    with Inl q1 show ?thesis by (simp add: queue_scripts_append)
  next
    case (Inr as')
    obtain r2 s2 where c: "traverse (localize_script lib) s1 cs = (r2, s2)"
      by (cases "traverse (localize_script lib) s1 cs")
    note q2 = "3.hyps"(1) [OF f [symmetric] Inr c]
    show ?thesis
    proof (cases r2)
      case (Inl e)
      with "3.prems" f \<open>r1 = Inr as'\<close> c have "r = Inl e" and "st' = s2" by simp_all
      with Inl \<open>r1 = Inr as'\<close> q1 q2 show ?thesis by (simp add: queue_scripts_append)
    next
      case (Inr cs')
      obtain r3 s3 where n: "traverse (localize_script lib) s2 ns = (r3, s3)"
        by (cases "traverse (localize_script lib) s2 ns")
      note q3 = "3.hyps"(2) [OF f [symmetric] \<open>r1 = Inr as'\<close> c [symmetric] Inr n]
      from "3.prems" f \<open>r1 = Inr as'\<close> c Inr n have "isl r = isl r3" and "st' = s3"
        by (auto split: sum.splits)
      with \<open>r1 = Inr as'\<close> Inr q1 q2 q3 show ?thesis by (simp add: queue_scripts_append)
    qed
  qed
qed

lemma website_process_html_state:
  "snd (website_process_html lib w doc) = snd (queue_scripts lib (script_urls doc) w)"
proof -
  obtain r w1 where t: "traverse (localize_script lib) w doc = (r, w1)"
    by (cases "traverse (localize_script lib) w doc")
  have "snd (website_process_html lib w doc) = w1"
    by (simp add: website_process_html_def t Let_def split: sum.splits)
  with traverse_queue [OF t] show ?thesis by simp
qed

lemma queue_scripts_keeps:
  assumes "map_of (resource_mapping st) k = Some v"
  shows "map_of (resource_mapping (snd (queue_scripts lib us st))) k = Some v"
  using assms
proof (induction us arbitrary: st)
  case Nil
  then show ?case by simp
next
  case (Cons u us)
  have "k \<noteq> u" if "\<not> mapped (resource_mapping st) u"
    using that Cons.prems by (auto simp add: mapped_def dest: map_of_SomeD intro: rev_image_eqI)
  then show ?case
    using Cons by (auto simp add: update_conv' split: option.splits)
qed

lemma queue_scripts_queued:
  assumes "x \<in> set (resources_to_download st)"
  shows "x \<in> set (resources_to_download (snd (queue_scripts lib us st)))"
  using assms
  by (induction us arbitrary: st) (auto split: option.splits)

lemma mapped_iff: "mapped m k \<longleftrightarrow> map_of m k \<noteq> None"
  by (simp add: mapped_def map_of_eq_None_iff)

lemma queue_scripts_new:
  assumes "\<not> mapped (resource_mapping st) k"
    and "mapped (resource_mapping (snd (queue_scripts lib us st))) k"
  shows "k \<in> set us
       \<and> (\<exists>p. urlparse_path lib k = Some p
              \<and> map_of (resource_mapping (snd (queue_scripts lib us st))) k
                  = Some (''js/'' @ basename p))
       \<and> k \<in> set (resources_to_download (snd (queue_scripts lib us st)))"
  using assms
proof (induction us arbitrary: st)
  case Nil
  then show ?case by simp
next
  case (Cons u us)
  show ?case
  proof (cases "mapped (resource_mapping st) u")
    case True
    with Cons.prems Cons.IH [of st] show ?thesis by auto
  next
    case False
    show ?thesis
    proof (cases "urlparse_path lib u")
      case None
      with False Cons.prems show ?thesis by simp
    next
      case (Some p)
      let ?st2 = "st\<lparr>resources_to_download := List.insert u (resources_to_download st),
               resource_mapping := AList.update u (''js/'' @ basename p) (resource_mapping st)\<rparr>"
      have q: "queue_scripts lib (u # us) st = queue_scripts lib us ?st2"
        using False Some by simp
      show ?thesis
      proof (cases "k = u")
        case True
        have "map_of (resource_mapping ?st2) u = Some (''js/'' @ basename p)"
          by (simp add: update_conv')
        from queue_scripts_keeps [OF this, of lib us]
          queue_scripts_queued [of u ?st2 lib us]
        show ?thesis
          using True Some q by simp
      next
        case False
        then have "\<not> mapped (resource_mapping ?st2) k"
          using Cons.prems(1) by (simp add: mapped_iff update_conv')
        from Cons.IH [OF this] Cons.prems(2) q show ?thesis by simp
      qed
    qed
  qed
qed

lemma queue_scripts_mapped_kept:
  assumes "mapped (resource_mapping st) k"
  shows "mapped (resource_mapping (snd (queue_scripts lib us st))) k"
proof -
  from assms obtain v where "map_of (resource_mapping st) k = Some v"
    by (auto simp add: mapped_iff)
  from queue_scripts_keeps [OF this, of lib us] show ?thesis
    by (simp add: mapped_iff)
qed

lemma queue_scripts_complete:
  assumes "list_all (\<lambda>u. urlparse_path lib u \<noteq> None) us" and "k \<in> set us"
  shows "mapped (resource_mapping (snd (queue_scripts lib us st))) k"
  using assms
proof (induction us arbitrary: st)
  case Nil
  then show ?case by simp
next
  case (Cons u us)
  from Cons.prems(1) obtain p where p: "urlparse_path lib u = Some p"
    and rest: "list_all (\<lambda>u. urlparse_path lib u \<noteq> None) us"
    by auto
  let ?st2 = "st\<lparr>resources_to_download := List.insert u (resources_to_download st),
               resource_mapping := AList.update u (''js/'' @ basename p) (resource_mapping st)\<rparr>"
  show ?case
  proof (cases "mapped (resource_mapping st) u")
    case True
    then have q: "queue_scripts lib (u # us) st = queue_scripts lib us st" by simp
    show ?thesis
    proof (cases "k = u")
      case True
      with \<open>mapped (resource_mapping st) u\<close> q queue_scripts_mapped_kept [of st u lib us]
      show ?thesis by simp
    next
      case False
      with Cons.prems(2) have "k \<in> set us" by simp
      from Cons.IH [OF rest this, of st] q show ?thesis by simp
    qed
  next
    case False
    then have q: "queue_scripts lib (u # us) st = queue_scripts lib us ?st2"
      using p by simp
    show ?thesis
    proof (cases "k = u")
      case True
      have "mapped (resource_mapping ?st2) u"
        by (simp add: mapped_iff update_conv')
      from queue_scripts_mapped_kept [OF this, of lib us] True q show ?thesis by simp
    next
      case False
      with Cons.prems(2) have "k \<in> set us" by simp
      from Cons.IH [OF rest this, of ?st2] q show ?thesis by simp
    qed
  qed
qed

lemma queue_scripts_frame:
  "files (snd (queue_scripts lib us st)) = files st
   \<and> dirs (snd (queue_scripts lib us st)) = dirs st
   \<and> requests (snd (queue_scripts lib us st)) = requests st
   \<and> slept (snd (queue_scripts lib us st)) = slept st
   \<and> base_url (snd (queue_scripts lib us st)) = base_url st
   \<and> output_dir (snd (queue_scripts lib us st)) = output_dir st
   \<and> downloaded_urls (snd (queue_scripts lib us st)) = downloaded_urls st"
proof (induction us arbitrary: st)
  case Nil
  show ?case by simp
next
  case (Cons u us)
  show ?case
  proof (cases "mapped (resource_mapping st) u")
    case True
    with Cons.IH [of st] show ?thesis by simp
  next
    case False
    show ?thesis
    proof (cases "urlparse_path lib u")
      case None
      with False show ?thesis by simp
    next
      case (Some p)
      with False Cons.IH
        [of "st\<lparr>resources_to_download := List.insert u (resources_to_download st),
               resource_mapping := AList.update u (''js/'' @ basename p) (resource_mapping st)\<rparr>"]
      show ?thesis by simp
    qed
  qed
qed

lemma tilda_page_facts:
  "script_urls tilda_page = [''https://static.tildacdn.com/js/tilda-scripts-3.0.min.js'']"
  "urlparse_path cpython ''https://static.tildacdn.com/js/tilda-scripts-3.0.min.js''
     = Some ''/js/tilda-scripts-3.0.min.js''"
  "basename ''/js/tilda-scripts-3.0.min.js'' = ''tilda-scripts-3.0.min.js''"
  "\<not> mapped [(''a.jpg'', ''images/a.jpg'')]
        ''https://static.tildacdn.com/js/tilda-scripts-3.0.min.js''"
  "fst (musician_process_html ''init()''
         (fresh_musician\<lparr>resource_mapping := [(''a.jpg'', ''images/a.jpg'')]\<rparr>) tilda_page)
   = Inr [Element ''html'' []
        [Element ''head'' []
           [viewport_meta,
            Element ''script''
              [(''src'', ''https://static.tildacdn.com/js/tilda-scripts-3.0.min.js'')] []],
         Element ''body'' []
           [Element ''img'' [(''src'', ''images/a.jpg'')] [],
            Element ''script'' [] [Text ''init()'']]]]"
  by code_simp+

subsection \<open>The \<open>srcset\<close> attributes through the passes\<close>

lemma srcset_values_append:
  "srcset_values (xs @ ys) = srcset_values xs @ srcset_values ys"
  by (induction xs rule: srcset_values.induct) simp_all

lemma srcset_values_Cons:
  "srcset_values (n # ns) = srcset_values [n] @ srcset_values ns"
  using srcset_values_append [of "[n]" ns] by simp

lemma srcset_values_map_elements:
  assumes "\<And>tag as. map_of (f tag as) ''srcset'' = map_of as ''srcset''"
  shows "srcset_values (map_elements f doc) = srcset_values doc"
  by (induction doc rule: srcset_values.induct) (simp_all add: assms)

lemma srcset_values_try_map_elements:
  assumes f: "\<And>tag as as'. f tag as = Inr as'
      \<Longrightarrow> map_of as' ''srcset'' = map_option (g tag) (map_of as ''srcset'')"
    and r: "try_map_elements f doc = Inr doc'"
  shows "srcset_values doc' = map (\<lambda>(t, s). (t, g t s)) (srcset_values doc)"
  using r
proof (induction doc arbitrary: doc' rule: srcset_values.induct)
  case 1
  then show ?case by simp
next
  case (2 t ns)
  then show ?case by (auto split: sum.splits)
next
  case (3 tag as cs ns)
  from "3.prems" obtain as' cs' ns' where a: "f tag as = Inr as'"
    and c: "try_map_elements f cs = Inr cs'" and n: "try_map_elements f ns = Inr ns'"
    and d: "doc' = Element tag as' cs' # ns'"
    by (auto split: sum.splits)
  have h1: "srcset_values cs' = map (\<lambda>(t, s). (t, g t s)) (srcset_values cs)"
    using "3.IH"(1) [OF c] .
  have h2: "srcset_values ns' = map (\<lambda>(t, s). (t, g t s)) (srcset_values ns)"
    using "3.IH"(2) [OF n] .
  show ?case
    by (simp add: d h1 h2 f [OF a] split: option.splits)
qed

lemma decompose_all_twice:
  "decompose_all p2 (decompose_all p1 doc) = decompose_all (\<lambda>t a. p1 t a \<or> p2 t a) doc"
  by (induction p1 doc rule: decompose_all.induct) simp_all

lemma list_all_srcset_values_decompose:
  assumes "list_all P (srcset_values doc)"
  shows "list_all P (srcset_values (decompose_all p doc))"
  using assms
  by (induction p doc rule: decompose_all.induct) simp_all

lemma localize_script_srcset:
  assumes "localize_script lib st tag as = (Inr as', st')"
  shows "map_of as' ''srcset'' = map_of as ''srcset''"
    and "removed_by_website tag as' = removed_by_website tag as"
proof -
  have "as' = as \<or> (tag = ''script'' \<and> (\<exists>v. as' = AList.update ''src'' v as))"
    using assms
    by (auto simp add: localize_script_def Let_def split: if_splits option.splits list.splits)
  then show "map_of as' ''srcset'' = map_of as ''srcset''"
    and "removed_by_website tag as' = removed_by_website tag as"
    by (auto simp add: update_conv' removed_by_website_def)
qed

lemma traverse_srcset_values:
  assumes "traverse (localize_script lib) st doc = (Inr doc', st')"
  shows "srcset_values (decompose_all removed_by_website doc')
       = srcset_values (decompose_all removed_by_website doc)"
  using assms
proof (induction "localize_script lib" st doc arbitrary: doc' st' rule: traverse.induct)
  case (1 s)
  then show ?case by simp
next
  case (2 s t ns)
  then show ?case by (auto split: prod.splits sum.splits)
next
  case (3 s tag as cs ns)
  from "3.prems" obtain as' s1 cs' s2 ns' where a: "localize_script lib s tag as = (Inr as', s1)"
    and c: "traverse (localize_script lib) s1 cs = (Inr cs', s2)"
    and n: "traverse (localize_script lib) s2 ns = (Inr ns', st')"
    and d: "doc' = Element tag as' cs' # ns'"
    by (auto split: prod.splits sum.splits)
  have h1: "srcset_values (decompose_all removed_by_website cs')
       = srcset_values (decompose_all removed_by_website cs)"
    using "3.hyps"(1) [OF a [symmetric] refl c] .
  have h2: "srcset_values (decompose_all removed_by_website ns')
       = srcset_values (decompose_all removed_by_website ns)"
    using "3.hyps"(2) [OF a [symmetric] refl c [symmetric] refl n] .
  show ?case
    by (simp add: d h1 h2 localize_script_srcset [OF a])
qed

lemma modify_first_srcset_values:
  assumes g: "\<And>n. srcset_values [g n] = srcset_values [n]"
    and m: "modify_first t g doc = Some doc'"
  shows "srcset_values doc' = srcset_values doc"
  using m
proof (induction doc arbitrary: doc' rule: srcset_values.induct)
  case 1
  then show ?case by simp
next
  case (2 x ns)
  then show ?case by auto
next
  case (3 tag as cs ns)
  show ?case
  proof (cases "tag = t")
    case True
    with "3.prems" have d: "doc' = g (Element tag as cs) # ns" by simp
    have "srcset_values doc' = srcset_values [g (Element tag as cs)] @ srcset_values ns"
      unfolding d by (rule srcset_values_Cons)
    also have "\<dots> = srcset_values [Element tag as cs] @ srcset_values ns"
      by (simp only: g)
    also have "\<dots> = srcset_values (Element tag as cs # ns)"
      by (rule srcset_values_Cons [symmetric])
    finally show ?thesis .
  next
    case False
    show ?thesis
    proof (cases "modify_first t g cs")
      case (Some cs')
      with False "3.prems" have d: "doc' = Element tag as cs' # ns" by simp
      from "3.IH"(1) [OF Some] show ?thesis by (simp add: d)
    next
      case None
      with False "3.prems" obtain ns' where n: "modify_first t g ns = Some ns'"
        and d: "doc' = Element tag as cs # ns'"
        by auto
      from "3.IH"(2) [OF n] show ?thesis by (simp add: d)
    qed
  qed
qed

lemma insert_viewport_srcset_values:
  "srcset_values [insert_child viewport_meta n] = srcset_values [n]"
  by (cases n) (simp_all add: viewport_meta_def)

lemma append_script_srcset_values:
  "srcset_values [append_child (Element ''script'' [] [Text js]) n] = srcset_values [n]"
  by (cases n) (simp_all add: srcset_values_append)

lemma srcset_loop_Inr:
  assumes "srcset_loop m acc es = Inr new"
  shows "new = acc @ rewritten_entries m es"
  using assms
proof (induction es arbitrary: acc)
  case Nil
  then show ?case by (simp add: rewritten_entries_def)
next
  case (Cons e es)
  show ?case
  proof (cases "py_split (py_strip e)")
    case Nil
    with Cons.prems show ?thesis by simp
  next
    case (Cons src desc)
    show ?thesis
    proof (cases "map_of m src")
      case None
      with Cons Cons.prems have "srcset_loop m acc es = Inr new" by simp
      from Cons.IH [OF this] Cons None show ?thesis by (simp add: rewritten_entries_def)
    next
      case (Some l)
      with Cons Cons.prems
      have "srcset_loop m (acc @ [l @ '' '' @ py_join '' '' desc]) es = Inr new" by simp
      from Cons.IH [OF this] Cons Some show ?thesis by (simp add: rewritten_entries_def)
    qed
  qed
qed

lemma rewrite_srcset_Inr:
  assumes "rewrite_srcset m s = Inr v"
  shows "v = regenerated_srcset m s"
proof -
  from assms obtain new where l: "srcset_loop m [] (py_split_on CHR '','' s) = Inr new"
    and v: "v = (if new \<noteq> [] then py_join '', '' new else s)"
    by (auto simp add: rewrite_srcset_def split: sum.splits)
  from srcset_loop_Inr [OF l] v show ?thesis
    by (simp add: regenerated_srcset_def)
qed

lemma rewrite_srcset_total:
  assumes "nonblank_entries s"
  shows "rewrite_srcset m s = Inr (regenerated_srcset m s)"
  using srcset_loop_rewritten [of "py_split_on CHR '','' s" m "[]"] assms
  by (simp add: rewrite_srcset_def regenerated_srcset_def nonblank_entries_def)

lemma map_of_rewrite_attr:
  "map_of (rewrite_attr m a as) b
     = (if b = a then map_option (mapped_or_same m) (map_of as a) else map_of as b)"
  by (simp add: rewrite_attr_def mapped_or_same_def update_conv'
      split: option.splits list.splits)

lemma map_of_fold_rewrite_attr:
  assumes "b \<notin> set names"
  shows "map_of (fold (rewrite_attr m) names as) b = map_of as b"
  using assms
  by (induction names arbitrary: as) (simp_all add: map_of_rewrite_attr)

lemma update_references_plain:
  assumes "''srcset'' \<notin> set names"
  shows "\<exists>as'. update_references m (row_tag, names, False) tag as = Inr as'
            \<and> map_of as' ''srcset'' = map_of as ''srcset''"
  using assms
  by (simp add: update_references_def map_of_fold_rewrite_attr split: option.splits list.splits)

lemma update_references_source:
  assumes "update_references m (''source'', [''src'', ''srcset''], True) tag as = Inr as'"
  shows "map_of as' ''srcset''
       = map_option (\<lambda>s. snd (srcset_after m (tag, s))) (map_of as ''srcset'')"
proof (cases "tag = ''source''")
  case False
  with assms have "as' = as" by (simp add: update_references_def)
  with False show ?thesis by (simp add: srcset_after_def option.map_ident)
next
  case True
  show ?thesis
  proof (cases "map_of as ''srcset''")
    case None
    with True assms have "as' = fold (rewrite_attr m) [''src'', ''srcset''] as"
      by (simp add: update_references_def)
    with None show ?thesis by (simp add: map_of_rewrite_attr)
  next
    case (Some s)
    show ?thesis
    proof (cases s)
      case Nil
      with Some True assms have "as' = fold (rewrite_attr m) [''src'', ''srcset''] as"
        by (simp add: update_references_def)
      with Some Nil show ?thesis
        by (simp add: map_of_rewrite_attr srcset_after_def mapped_or_same_def)
    next
      case (Cons c cs)
      with Some True assms obtain v where v: "rewrite_srcset m s = Inr v"
        and a: "as' = fold (rewrite_attr m) [''src'', ''srcset''] (AList.update ''srcset'' v as)"
        by (auto simp add: update_references_def split: sum.splits)
      from rewrite_srcset_Inr [OF v] a Some Cons True show ?thesis
        by (simp add: map_of_rewrite_attr srcset_after_def update_conv')
    qed
  qed
qed

lemma update_references_source_total:
  assumes "case map_of as ''srcset'' of
             Some s \<Rightarrow> (if tag = ''source'' \<and> s \<noteq> [] then nonblank_entries s else True)
           | None \<Rightarrow> True"
  shows "\<exists>as'. update_references m (''source'', [''src'', ''srcset''], True) tag as = Inr as'"
proof (cases "tag = ''source''")
  case False
  then show ?thesis by (simp add: update_references_def)
next
  case True
  show ?thesis
  proof (cases "map_of as ''srcset''")
    case None
    with True show ?thesis by (simp add: update_references_def)
  next
    case (Some s)
    show ?thesis
    proof (cases s)
      case Nil
      with Some True show ?thesis by (simp add: update_references_def)
    next
      case (Cons c cs)
      with Some True assms have "nonblank_entries s" by simp
      from rewrite_srcset_total [OF this, of m] Some Cons True show ?thesis
        by (simp add: update_references_def)
    qed
  qed
qed

lemma srcset_after_eq:
  "(\<lambda>(t, s). (t, snd (srcset_after m (t, s)))) = srcset_after m"
  by (auto simp add: srcset_after_def fun_eq_iff)

lemma try_map_elements_plain:
  assumes "''srcset'' \<notin> set names"
  shows "\<exists>doc'. try_map_elements (update_references m (row_tag, names, False)) doc = Inr doc'
            \<and> srcset_values doc' = srcset_values doc"
proof (induction doc rule: srcset_values.induct)
  case 1
  show ?case by simp
next
  case (2 t ns)
  then show ?case by auto
next
  case (3 tag as cs ns)
  from update_references_plain [OF assms, of m row_tag tag as]
  obtain as' where a: "update_references m (row_tag, names, False) tag as = Inr as'"
    and s: "map_of as' ''srcset'' = map_of as ''srcset''"
    by blast
  from "3.IH"(1) obtain cs'
    where c: "try_map_elements (update_references m (row_tag, names, False)) cs = Inr cs'"
      and sc: "srcset_values cs' = srcset_values cs"
    by blast
  from "3.IH"(2) obtain ns'
    where n: "try_map_elements (update_references m (row_tag, names, False)) ns = Inr ns'"
      and sn: "srcset_values ns' = srcset_values ns"
    by blast
  show ?case by (simp add: a c n s sc sn)
qed

lemma try_map_elements_source:
  assumes "try_map_elements (update_references m (''source'', [''src'', ''srcset''], True)) doc
         = Inr doc'"
  shows "srcset_values doc' = map (srcset_after m) (srcset_values doc)"
proof -
  have "srcset_values doc'
      = map (\<lambda>(t, s). (t, snd (srcset_after m (t, s)))) (srcset_values doc)"
    by (rule srcset_values_try_map_elements [OF _ assms]) (rule update_references_source)
  then show ?thesis by (simp only: srcset_after_eq)
qed

lemma try_map_elements_source_total:
  assumes "well_formed_srcsets doc"
  shows "\<exists>doc'. try_map_elements (update_references m (''source'', [''src'', ''srcset''], True)) doc
           = Inr doc'"
  using assms
proof (induction doc rule: srcset_values.induct)
  case 1
  show ?case by simp
next
  case (2 t ns)
  then show ?case by (auto simp add: well_formed_srcsets_def)
next
  case (3 tag as cs ns)
  from "3.prems" have e: "case map_of as ''srcset'' of
             Some s \<Rightarrow> (if tag = ''source'' \<and> s \<noteq> [] then nonblank_entries s else True)
           | None \<Rightarrow> True"
    and wc: "well_formed_srcsets cs" and wn: "well_formed_srcsets ns"
    by (auto simp add: well_formed_srcsets_def split: option.splits)
  from update_references_source_total [OF e, of m]
  obtain as' where a: "update_references m (''source'', [''src'', ''srcset''], True) tag as = Inr as'"
    by blast
  from "3.IH"(1) [OF wc] obtain cs'
    where c: "try_map_elements (update_references m (''source'', [''src'', ''srcset''], True)) cs
            = Inr cs'"
    by blast
  from "3.IH"(2) [OF wn] obtain ns'
    where n: "try_map_elements (update_references m (''source'', [''src'', ''srcset''], True)) ns
            = Inr ns'"
    by blast
  show ?case by (simp add: a c n)
qed

lemma update_all_references_plain:
  assumes "list_all (\<lambda>row. \<not> snd (snd row) \<and> ''srcset'' \<notin> set (fst (snd row))) rows"
  shows "\<exists>doc'. update_all_references m rows doc = Inr doc'
            \<and> srcset_values doc' = srcset_values doc"
  using assms
proof (induction rows arbitrary: doc)
  case Nil
  show ?case by simp
next
  case (Cons row rows)
  obtain t names flag where r: "row = (t, names, flag)" by (cases row)
  from Cons.prems r have f: "flag = False" and n: "''srcset'' \<notin> set names"
    and rest: "list_all (\<lambda>row. \<not> snd (snd row) \<and> ''srcset'' \<notin> set (fst (snd row))) rows"
    by simp_all
  from try_map_elements_plain [OF n, of m t doc] obtain doc1
    where d: "try_map_elements (update_references m (t, names, False)) doc = Inr doc1"
      and s: "srcset_values doc1 = srcset_values doc"
    by blast
  from Cons.IH [OF rest, of doc1] obtain doc'
    where u: "update_all_references m rows doc1 = Inr doc'"
      and s': "srcset_values doc' = srcset_values doc1"
    by blast
  show ?case by (simp add: r f d u s s')
qed

lemma update_all_references_append:
  "update_all_references m (rs1 @ rs2) doc
     = (case update_all_references m rs1 doc of
          Inl e \<Rightarrow> Inl e
        | Inr d \<Rightarrow> update_all_references m rs2 d)"
  by (induction rs1 arbitrary: doc) (simp_all split: sum.splits)

lemma update_all_references_srcset:
  assumes pre: "list_all (\<lambda>row. \<not> snd (snd row) \<and> ''srcset'' \<notin> set (fst (snd row))) pre"
    and post: "list_all (\<lambda>row. \<not> snd (snd row) \<and> ''srcset'' \<notin> set (fst (snd row))) post"
  shows "(update_all_references m (pre @ (''source'', [''src'', ''srcset''], True) # post) doc
            = Inr doc'
          \<longrightarrow> srcset_values doc' = map (srcset_after m) (srcset_values doc))
       \<and> (well_formed_srcsets doc
          \<longrightarrow> (\<exists>d. update_all_references m
                      (pre @ (''source'', [''src'', ''srcset''], True) # post) doc = Inr d))"
proof -
  from update_all_references_plain [OF pre, of m doc] obtain doc1
    where u1: "update_all_references m pre doc = Inr doc1"
      and s1: "srcset_values doc1 = srcset_values doc"
    by blast
  have e: "update_all_references m (pre @ (''source'', [''src'', ''srcset''], True) # post) doc
      = (case try_map_elements (update_references m (''source'', [''src'', ''srcset''], True)) doc1 of
           Inl e \<Rightarrow> Inl e
         | Inr d \<Rightarrow> update_all_references m post d)"
    by (simp add: update_all_references_append u1)
  have a: "srcset_values doc' = map (srcset_after m) (srcset_values doc)"
    if h: "update_all_references m (pre @ (''source'', [''src'', ''srcset''], True) # post) doc
            = Inr doc'"
  proof -
    from h e obtain doc2
      where t: "try_map_elements (update_references m (''source'', [''src'', ''srcset''], True)) doc1
              = Inr doc2"
        and u2: "update_all_references m post doc2 = Inr doc'"
      by (auto split: sum.splits)
    from update_all_references_plain [OF post, of m doc2] u2
    have "srcset_values doc' = srcset_values doc2" by auto
    with try_map_elements_source [OF t] s1 show ?thesis by simp
  qed
  have b: "\<exists>d. update_all_references m
                      (pre @ (''source'', [''src'', ''srcset''], True) # post) doc = Inr d"
    if w: "well_formed_srcsets doc"
  proof -
    from w s1 have "well_formed_srcsets doc1" by (simp add: well_formed_srcsets_def)
    from try_map_elements_source_total [OF this, of m] obtain doc2
      where t: "try_map_elements (update_references m (''source'', [''src'', ''srcset''], True)) doc1
              = Inr doc2"
      by blast
    from update_all_references_plain [OF post, of m doc2] obtain d
      where "update_all_references m post doc2 = Inr d"
      by blast
    with e t show ?thesis by simp
  qed
  from a b show ?thesis by blast
qed

lemma musician_rules_srcset:
  "(update_all_references m musician_rules doc = Inr doc'
      \<longrightarrow> srcset_values doc' = map (srcset_after m) (srcset_values doc))
   \<and> (well_formed_srcsets doc \<longrightarrow> (\<exists>d. update_all_references m musician_rules doc = Inr d))"
proof -
  have "musician_rules
      = [(''link'', [''href''], False), (''script'', [''src''], False), (''img'', [''src''], False)]
        @ (''source'', [''src'', ''srcset''], True)
        # [(''meta'', [''content''], False),
           (''div'', [''data-original'', ''data-content-cover-bg'', ''data-img-zoom'',
                 ''data-img-zoom-url'', ''data-zoomable'', ''data-zoomable-url'',
                 ''data-zoom-target'', ''data-original-item'', ''data-animate-style'',
                 ''data-animate-chain''], False),
           (''a'', [''data-content-popup-img-url''], False)]"
    by (simp add: musician_rules_def)
  then show ?thesis
    by (elim ssubst) (rule update_all_references_srcset, simp_all)
qed

lemma website_rules_srcset:
  "(update_all_references m website_rules doc = Inr doc'
      \<longrightarrow> srcset_values doc' = map (srcset_after m) (srcset_values doc))
   \<and> (well_formed_srcsets doc \<longrightarrow> (\<exists>d. update_all_references m website_rules doc = Inr d))"
proof -
  have "website_rules
      = [(''link'', [''href''], False), (''script'', [''src''], False), (''img'', [''src''], False)]
        @ (''source'', [''src'', ''srcset''], True)
        # [(''meta'', [''content''], False),
           (''div'', [''data-original'', ''data-content-cover-bg'', ''data-img-zoom''], False)]"
    by (simp add: website_rules_def)
  then show ?thesis
    by (elim ssubst) (rule update_all_references_srcset, simp_all)
qed

lemma update_style_srcset:
  "map_of (update_style m tag as) ''srcset'' = map_of as ''srcset''"
  by (simp add: update_style_def update_conv' split: option.splits list.splits)

lemma map_of_filter_key:
  "map_of (filter (\<lambda>(k, v). P k) as) a = (if P a then map_of as a else None)"
  by (induction as) auto

lemma remove_tilda_attrs_srcset:
  "map_of (remove_tilda_attrs tag as) ''srcset'' = map_of as ''srcset''"
proof -
  have "\<not> py_contains (py_lower ''srcset'') ''tilda''" by code_simp
  then show ?thesis
    by (simp add: remove_tilda_attrs_def map_of_filter_key)
qed

lemma musician_process_html_srcset:
  "(musician_process_html init_js st doc = (Inr doc', st')
      \<longrightarrow> srcset_values doc' = map (srcset_after (resource_mapping st)) (srcset_values doc))
   \<and> (well_formed_srcsets doc
      \<longrightarrow> fst (musician_process_html init_js st doc) \<noteq> Inl ValueError)"
proof -
  define doc1 where "doc1 = (case modify_first ''head'' (insert_child viewport_meta) doc of
                    Some d \<Rightarrow> d
                  | None \<Rightarrow> doc)"
  have s1: "srcset_values doc1 = srcset_values doc"
  proof (cases "modify_first ''head'' (insert_child viewport_meta) doc")
    case None
    then show ?thesis by (simp add: doc1_def)
  next
    case (Some d)
    from modify_first_srcset_values [OF insert_viewport_srcset_values Some]
    show ?thesis by (simp add: doc1_def Some)
  qed
  have a: "srcset_values doc' = map (srcset_after (resource_mapping st)) (srcset_values doc)"
    if h: "musician_process_html init_js st doc = (Inr doc', st')"
  proof -
    from h obtain doc2
      where u: "update_all_references (resource_mapping st) musician_rules doc1 = Inr doc2"
        and b: "modify_first ''body'' (append_child (Element ''script'' [] [Text init_js]))
                  (map_elements (update_style (resource_mapping st)) doc2) = Some doc'"
      by (auto simp add: musician_process_html_def doc1_def Let_def
          split: sum.splits option.splits)
    from musician_rules_srcset [of "resource_mapping st" doc1 doc2] u s1
    have "srcset_values doc2 = map (srcset_after (resource_mapping st)) (srcset_values doc)"
      by simp
    moreover have "srcset_values (map_elements (update_style (resource_mapping st)) doc2)
        = srcset_values doc2"
      by (rule srcset_values_map_elements) (rule update_style_srcset)
    moreover have "srcset_values doc'
        = srcset_values (map_elements (update_style (resource_mapping st)) doc2)"
      by (rule modify_first_srcset_values [OF append_script_srcset_values b])
    ultimately show ?thesis by simp
  qed
  have b: "fst (musician_process_html init_js st doc) \<noteq> Inl ValueError"
    if w: "well_formed_srcsets doc"
  proof -
    from w s1 have "well_formed_srcsets doc1" by (simp add: well_formed_srcsets_def)
    with musician_rules_srcset [of "resource_mapping st" doc1] obtain d
      where "update_all_references (resource_mapping st) musician_rules doc1 = Inr d"
      by blast
    then show ?thesis
      by (simp add: musician_process_html_def doc1_def [symmetric] Let_def split: option.splits)
  qed
  from a b show ?thesis by blast
qed

lemma removed_by_website_eq:
  "(\<lambda>t a. (t = ''meta'' \<and> has_value_containing ''content'' ''tildacdn'' a)
          \<or> (t = ''link'' \<and> has_value_containing ''href'' ''tildafavicon'' a))
   = removed_by_website"
  by (simp add: removed_by_website_def fun_eq_iff)

lemma queue_scripts_parsed:
  assumes "list_all (\<lambda>u. urlparse_path lib u \<noteq> None) us"
  shows "fst (queue_scripts lib us st)"
  using assms
  by (induction us arbitrary: st) (auto split: option.splits)

lemma website_process_html_srcset:
  "(website_process_html lib w doc = (Inr doc', w')
      \<longrightarrow> srcset_values doc'
            = map (srcset_after (resource_mapping w'))
                (srcset_values (decompose_all removed_by_website doc)))
   \<and> (well_formed_srcsets doc \<and> list_all (\<lambda>u. urlparse_path lib u \<noteq> None) (script_urls doc)
      \<longrightarrow> (\<exists>d. fst (website_process_html lib w doc) = Inr d))"
proof -
  obtain r w1 where t: "traverse (localize_script lib) w doc = (r, w1)"
    by (cases "traverse (localize_script lib) w doc")
  define rest where "rest d = map_elements (update_style (resource_mapping w1))
      (map_elements remove_tilda_attrs (decompose_all removed_by_website d))" for d
  have e: "website_process_html lib w doc
      = (case r of Inl e \<Rightarrow> (Inl e, w1)
         | Inr doc1 \<Rightarrow> (update_all_references (resource_mapping w1) website_rules (rest doc1), w1))"
    by (simp add: website_process_html_def t Let_def rest_def decompose_all_twice
        removed_by_website_eq split: sum.splits)
  have s: "srcset_values (rest d) = srcset_values (decompose_all removed_by_website d)" for d
  proof -
    have "srcset_values (rest d)
        = srcset_values (map_elements remove_tilda_attrs (decompose_all removed_by_website d))"
      unfolding rest_def by (rule srcset_values_map_elements) (rule update_style_srcset)
    also have "\<dots> = srcset_values (decompose_all removed_by_website d)"
      by (rule srcset_values_map_elements) (rule remove_tilda_attrs_srcset)
    finally show ?thesis .
  qed
  have a: "srcset_values doc'
            = map (srcset_after (resource_mapping w'))
                (srcset_values (decompose_all removed_by_website doc))"
    if h: "website_process_html lib w doc = (Inr doc', w')"
  proof -
    from h e obtain doc1 where r: "r = Inr doc1" and w': "w' = w1"
      and u: "update_all_references (resource_mapping w1) website_rules (rest doc1) = Inr doc'"
      by (auto split: sum.splits)
    from website_rules_srcset [of "resource_mapping w1" "rest doc1" doc'] u
    have "srcset_values doc' = map (srcset_after (resource_mapping w1)) (srcset_values (rest doc1))"
      by simp
    with s [of doc1] traverse_srcset_values [OF t [unfolded r]] w' show ?thesis by simp
  qed
  have b: "\<exists>d. fst (website_process_html lib w doc) = Inr d"
    if h: "well_formed_srcsets doc \<and> list_all (\<lambda>u. urlparse_path lib u \<noteq> None) (script_urls doc)"
  proof -
    from h queue_scripts_parsed [of lib "script_urls doc" w] traverse_queue [OF t]
    have "\<not> isl r" by simp
    then obtain doc1 where r: "r = Inr doc1" by (cases r) auto
    from h have "list_all (\<lambda>(tag, s). if tag = ''source'' \<and> s \<noteq> [] then nonblank_entries s else True)
       (srcset_values (decompose_all removed_by_website doc))"
      unfolding well_formed_srcsets_def by (blast intro: list_all_srcset_values_decompose)
    with s [of doc1] traverse_srcset_values [OF t [unfolded r]]
    have "well_formed_srcsets (rest doc1)" by (simp add: well_formed_srcsets_def)
    with website_rules_srcset [of "resource_mapping w1" "rest doc1"] obtain d
      where "update_all_references (resource_mapping w1) website_rules (rest doc1) = Inr d"
      by blast
    with e r show ?thesis by simp
  qed
  from a b show ?thesis by blast
qed

lemma srcset_page_facts:
  "isl (fst (musician_process_html ''init()''
              (fresh_musician\<lparr>resource_mapping := srcset_mapping\<rparr>) srcset_page)) = False"
  "isl (fst (website_process_html cpython
              (fresh_website\<lparr>resource_mapping := srcset_mapping\<rparr>) srcset_page)) = False"
  "resource_mapping (snd (website_process_html cpython
              (fresh_website\<lparr>resource_mapping := srcset_mapping\<rparr>) srcset_page))
     = srcset_mapping"
  "map (srcset_after srcset_mapping) (srcset_values srcset_page)
     = [(''source'', ''images/a_1.jpg 1x''),
        (''source'', ''images/a_1.jpg 1x, images/c.jpg 640w''),
        (''source'', ''f.jpg''), (''img'', ''a.jpg 1x'')]"
  "decompose_all removed_by_website srcset_page = srcset_page"
  "well_formed_srcsets srcset_page"
  "list_all (\<lambda>u. urlparse_path cpython u \<noteq> None) (script_urls srcset_page)"
  by code_simp+

section \<open>The thumbnail probe\<close>

text \<open>
  Claim C10. In \<open>MusicianDownloader.is_thumbnail\<close>, a \<open>HEAD\<close> probe that raises gives
  \<open>False\<close>, and an image URL is then stored under \<open>images\<close>; a probe that succeeds with no
  \<open>content-length\<close> header gives the size 0, below the threshold of 5 KiB, so the result is
  \<open>True\<close> and the image is stored under \<open>images/thumbnails\<close>.
\<close>

theorem is_thumbnail_probe_failure_and_missing_length:
  assumes "url \<noteq> []" and "\<not> py_startswith url ''data:''"
    and "urlparse_path lib url = Some p"
    and "py_lower (snd (splitext (basename (py_lstrip ''/'' p)))) \<in> set image_exts"
  shows "(head_response net url = HeadRaises \<longrightarrow>
            \<not> is_thumbnail net url \<and>
            get_local_path lib net st url =
              Inr (Some (path_join (path_join (output_dir st) ''images'')
                           (unique_name lib url (basename (py_lstrip ''/'' p))))))
       \<and> (head_response net url = HeadOk Missing \<longrightarrow>
            is_thumbnail net url \<and>
            get_local_path lib net st url =
              Inr (Some (path_join (path_join (output_dir st) ''images/thumbnails'')
                           (unique_name lib url (basename (py_lstrip ''/'' p))))))"
  using get_local_path_image [OF assms, of net st]
  by (simp add: is_thumbnail_def)

theorem is_thumbnail_probe_failure_and_missing_length_witness:
  "\<not> is_thumbnail (always Raises HeadRaises) ''https://example.com/a/photo.jpg''
   \<and> get_local_path cpython (always Raises HeadRaises) fresh_musician
         ''https://example.com/a/photo.jpg''
       = Inr (Some ''dist/musician/images/photo_e3ed7d84.jpg'')
   \<and> is_thumbnail (always Raises (HeadOk Missing)) ''https://example.com/a/photo.jpg''
   \<and> get_local_path cpython (always Raises (HeadOk Missing)) fresh_musician
         ''https://example.com/a/photo.jpg''
       = Inr (Some ''dist/musician/images/thumbnails/photo_e3ed7d84.jpg'')"
proof -
  have h1: "''https://example.com/a/photo.jpg'' \<noteq> []" by simp
  have h2: "\<not> py_startswith ''https://example.com/a/photo.jpg'' ''data:''"
    by (simp add: py_startswith_def)
  note t = is_thumbnail_probe_failure_and_missing_length [OF h1 h2 photo_parse photo_ext]
  show ?thesis
    using t [of "always Raises HeadRaises" fresh_musician]
      t [of "always Raises (HeadOk Missing)" fresh_musician]
    by (simp add: always_def photo_name fresh_musician_def path_join_def py_startswith_def)
qed

text \<open>
  Claim C9, as the code has it. \<open>MusicianDownloader\<close> takes an image for a thumbnail
  exactly when the \<open>HEAD\<close> probe succeeds and reports fewer than 5120 bytes, a missing
  \<open>content-length\<close> counting as 0; the URL's path is not looked at. An image URL is stored
  under \<open>images/thumbnails\<close> in that case and under \<open>images\<close> otherwise.
\<close>

theorem musician_thumbnail_by_probe_size:
  assumes "url \<noteq> []" and "\<not> py_startswith url ''data:''"
    and "urlparse_path lib url = Some p"
    and "py_lower (snd (splitext (basename (py_lstrip ''/'' p)))) \<in> set image_exts"
  shows "(is_thumbnail net url \<longleftrightarrow>
            head_response net url = HeadOk Missing
            \<or> (\<exists>n. head_response net url = HeadOk (Length n) \<and> n < 5120))
       \<and> get_local_path lib net st url =
            Inr (Some (path_join
                         (path_join (output_dir st)
                            (if is_thumbnail net url then ''images/thumbnails'' else ''images''))
                         (unique_name lib url (basename (py_lstrip ''/'' p)))))"
proof
  show "is_thumbnail net url \<longleftrightarrow>
            head_response net url = HeadOk Missing
            \<or> (\<exists>n. head_response net url = HeadOk (Length n) \<and> n < 5120)"
    by (simp add: is_thumbnail_def split: head_outcome.splits content_length.splits)
  show "get_local_path lib net st url =
            Inr (Some (path_join
                         (path_join (output_dir st)
                            (if is_thumbnail net url then ''images/thumbnails'' else ''images''))
                         (unique_name lib url (basename (py_lstrip ''/'' p)))))"
    using assms by (rule get_local_path_image)
qed

theorem musician_thumbnail_by_probe_size_witness:
  "get_local_path cpython (always Raises (HeadOk (Length 3072))) fresh_musician
         ''https://example.com/a/photo.jpg''
       = Inr (Some ''dist/musician/images/thumbnails/photo_e3ed7d84.jpg'')
   \<and> get_local_path cpython (always Raises (HeadOk (Length 51200))) fresh_musician
         ''https://example.com/a/photo.jpg''
       = Inr (Some ''dist/musician/images/photo_e3ed7d84.jpg'')"
proof -
  have h1: "''https://example.com/a/photo.jpg'' \<noteq> []" by simp
  have h2: "\<not> py_startswith ''https://example.com/a/photo.jpg'' ''data:''"
    by (simp add: py_startswith_def)
  note t = musician_thumbnail_by_probe_size [OF h1 h2 photo_parse photo_ext]
  show ?thesis
    using t [of "always Raises (HeadOk (Length 3072))" fresh_musician]
      t [of "always Raises (HeadOk (Length 51200))" fresh_musician]
    by (simp add: always_def photo_name fresh_musician_def path_join_def py_startswith_def)
qed

text \<open>
  Claim C9 as stated fails: a URL of the resize service, which \<open>WebsiteDownloader\<close> would
  take for a thumbnail, is no thumbnail for \<open>MusicianDownloader\<close> when the probe reports
  50 KiB.
\<close>

theorem musician_ignores_thumbnail_urls:
  "is_thumbnail_url ''https://thb.tildacdn.net/a/-/resize/20x/b.jpg''
   \<and> \<not> is_thumbnail (always Raises (HeadOk (Length 51200)))
         ''https://thb.tildacdn.net/a/-/resize/20x/b.jpg''
   \<and> get_local_path cpython (always Raises (HeadOk (Length 51200))) fresh_musician
         ''https://thb.tildacdn.net/a/-/resize/20x/b.jpg''
       = Inr (Some (''dist/musician/images/b_''
                      @ take 8 (md5_hexdigest cpython ''https://thb.tildacdn.net/a/-/resize/20x/b.jpg'')
                      @ ''.jpg''))"
proof -
  have "is_thumbnail_url ''https://thb.tildacdn.net/a/-/resize/20x/b.jpg''"
    by (rule thumb_facts)
  moreover have "\<not> is_thumbnail (always Raises (HeadOk (Length 51200)))
         ''https://thb.tildacdn.net/a/-/resize/20x/b.jpg''"
    by (simp add: is_thumbnail_def always_def)
  ultimately show ?thesis using thumb_path by simp
qed

section \<open>The fetch task\<close>

text \<open>
  Claim C5 fails on the code. In \<open>download_single_resource\<close> a response whose status is
  neither 200 nor 404 raises nothing, so \<open>retries\<close> stays at 3 and the loop requests the
  URL again without sleeping: against a server that always answers 500 the task never
  returns.
\<close>

theorem musician_status_500_never_returns:
  "download_single_resource cpython (always (Response 500 []) HeadRaises)
     ''https://static.tildacdn.com/js/hammer.min.js'' fresh_musician = None"
  unfolding download_single_resource_def
  by (rule musician_loop_other_status)
     (simp_all add: always_def fresh_musician_def mapped_def py_startswith_def)

text \<open>
  Claim C3, as the code has it. \<open>MusicianDownloader.download_single_resource\<close> answers a
  200 with an empty body by returning: no mapping entry, no file, no directory.
  \<open>WebsiteDownloader.download_resource\<close> does not look at the length of the body: on a 200
  it writes the body it received, an empty one too, and maps the URL.
\<close>

theorem empty_body_musician_rejects_website_keeps:
  "(\<not> py_startswith url ''data:'' \<and> \<not> mapped (resource_mapping st) url
      \<and> get_response net url (count_list (requests st) url) = Response 200 []
    \<longrightarrow> download_single_resource lib net url st = Some (send_get url st)
        \<and> resource_mapping (send_get url st) = resource_mapping st
        \<and> files (send_get url st) = files st
        \<and> dirs (send_get url st) = dirs st)
   \<and> (download_resource_start lib url0 w = (Fetch u local_path full_path, w1)
      \<and> get_response net u (count_list (requests w1) u) = Response 200 content
    \<longrightarrow> fst (download_resource lib net url0 w) = local_path
        \<and> map_of (resource_mapping (snd (download_resource lib net url0 w))) u = Some local_path
        \<and> map_of (files (snd (download_resource lib net url0 w))) full_path = Some content)"
proof (intro conjI impI)
  assume a: "\<not> py_startswith url ''data:'' \<and> \<not> mapped (resource_mapping st) url
      \<and> get_response net url (count_list (requests st) url) = Response 200 []"
  then show "download_single_resource lib net url st = Some (send_get url st)"
    by (intro musician_loop_returns_after_request [where status = 200 and content = "[]"]) simp_all
next
  assume b: "download_resource_start lib url0 w = (Fetch u local_path full_path, w1)
      \<and> get_response net u (count_list (requests w1) u) = Response 200 content"
  then have r: "download_resource lib net url0 w =
      (local_path,
       (write_file full_path content (send_get u w1))
         \<lparr>downloaded_urls := List.insert u (downloaded_urls (send_get u w1)),
          resource_mapping := AList.update u local_path (resource_mapping (send_get u w1))\<rparr>)"
    by (simp add: download_resource_def download_resource_finish_def numeral_3_eq_3)
  show "fst (download_resource lib net url0 w) = local_path" by (simp add: r)
  show "map_of (resource_mapping (snd (download_resource lib net url0 w))) u = Some local_path"
    by (simp add: r update_conv')
  show "map_of (files (snd (download_resource lib net url0 w))) full_path = Some content"
    by (simp add: r update_conv')
qed simp_all

theorem empty_body_musician_rejects_website_keeps_witness:
  "download_single_resource cpython (always (Response 200 []) HeadRaises)
       ''https://example.com/a/photo.jpg'' fresh_musician
     = Some (send_get ''https://example.com/a/photo.jpg'' fresh_musician)
   \<and> map_of (files (snd (download_resource cpython (always (Response 200 []) HeadRaises)
                          ''https://a.example/logo.png'' fresh_website)))
        ''dist/images/logo.png'' = Some []"
proof -
  have m: "\<not> py_startswith ''https://example.com/a/photo.jpg'' ''data:''
      \<and> \<not> mapped (resource_mapping fresh_musician) ''https://example.com/a/photo.jpg''
      \<and> get_response (always (Response 200 []) HeadRaises) ''https://example.com/a/photo.jpg''
           (count_list (requests fresh_musician) ''https://example.com/a/photo.jpg'')
         = Response 200 []"
    by (simp add: py_startswith_def mapped_def fresh_musician_def always_def)
  have w: "download_resource_start cpython ''https://a.example/logo.png'' fresh_website
       = (Fetch ''https://a.example/logo.png'' ''images/logo.png'' ''dist/images/logo.png'',
          fresh_website\<lparr>dirs := [''dist/images'']\<rparr>)
      \<and> get_response (always (Response 200 []) HeadRaises) ''https://a.example/logo.png''
           (count_list (requests (fresh_website\<lparr>dirs := [''dist/images'']\<rparr>))
              ''https://a.example/logo.png'')
         = Response 200 []"
    by (simp add: logo_start always_def)
  note t = empty_body_musician_rejects_website_keeps
    [of "''https://example.com/a/photo.jpg''" fresh_musician "always (Response 200 []) HeadRaises"
        cpython "''https://a.example/logo.png''" fresh_website "''https://a.example/logo.png''"
        "''images/logo.png''" "''dist/images/logo.png''"
        "fresh_website\<lparr>dirs := [''dist/images'']\<rparr>" "[]"]
  from t m w show ?thesis by blast
qed

text \<open>
  Claim C3 as stated fails for \<open>WebsiteDownloader\<close>: a 200 with an empty body leaves a
  mapping entry and a file of zero bytes.
\<close>

theorem website_maps_empty_body:
  "resource_mapping (snd (download_resource cpython (always (Response 200 []) HeadRaises)
                            ''https://a.example/logo.png'' fresh_website))
     = [(''https://a.example/logo.png'', ''images/logo.png'')]
   \<and> files (snd (download_resource cpython (always (Response 200 []) HeadRaises)
                    ''https://a.example/logo.png'' fresh_website))
     = [(''dist/images/logo.png'', [])]"
  unfolding download_resource_def logo_start
  by (simp add: download_resource_finish_def numeral_3_eq_3 always_def fresh_website_def)

text \<open>
  Claim C4, as the code has it. In \<open>download_single_resource\<close> a 404 ends the task after
  that one request, with no sleep and the URL unmapped. \<open>download_resource\<close> of
  \<open>WebsiteDownloader\<close> treats a 404 as any status other than 200: it sends all three
  requests, without sleeping, and leaves the URL unmapped.
\<close>

theorem not_found_musician_once_website_thrice:
  "(\<not> py_startswith url ''data:'' \<and> \<not> mapped (resource_mapping st) url
      \<and> get_response net url (count_list (requests st) url) = Response 404 body
    \<longrightarrow> download_single_resource lib net url st = Some (send_get url st)
        \<and> requests (send_get url st) = requests st @ [url]
        \<and> resource_mapping (send_get url st) = resource_mapping st
        \<and> slept (send_get url st) = slept st)
   \<and> (download_resource_start lib url0 w = (Fetch u local_path full_path, w1)
      \<and> (\<forall>k. \<exists>b. get_response net u k = Response 404 b)
    \<longrightarrow> download_resource lib net url0 w
          = (local_path, w1\<lparr>requests := requests w1 @ [u, u, u]\<rparr>))"
proof (intro conjI impI)
  assume a: "\<not> py_startswith url ''data:'' \<and> \<not> mapped (resource_mapping st) url
      \<and> get_response net url (count_list (requests st) url) = Response 404 body"
  then show "download_single_resource lib net url st = Some (send_get url st)"
    by (intro musician_loop_returns_after_request [where status = 404 and content = body]) simp_all
next
  assume b: "download_resource_start lib url0 w = (Fetch u local_path full_path, w1)
      \<and> (\<forall>k. \<exists>b. get_response net u k = Response 404 b)"
  then have "\<And>k. \<exists>b. get_response net u k = Response 404 b" by blast
  from attempts_not_200 [OF this, of local_path full_path 1 3 w1] b
  show "download_resource lib net url0 w = (local_path, w1\<lparr>requests := requests w1 @ [u, u, u]\<rparr>)"
    by (simp add: download_resource_def download_resource_finish_def numeral_3_eq_3)
qed simp_all

theorem not_found_musician_once_website_thrice_witness:
  "download_single_resource cpython (always (Response 404 []) HeadRaises)
       ''https://example.com/a/photo.jpg'' fresh_musician
     = Some (send_get ''https://example.com/a/photo.jpg'' fresh_musician)
   \<and> download_resource cpython (always (Response 404 []) HeadRaises)
        ''https://a.example/logo.png'' fresh_website
     = (''images/logo.png'',
        fresh_website\<lparr>dirs := [''dist/images''],
          requests := requests (fresh_website\<lparr>dirs := [''dist/images'']\<rparr>)
            @ [''https://a.example/logo.png'', ''https://a.example/logo.png'',
               ''https://a.example/logo.png'']\<rparr>)"
proof -
  have m: "\<not> py_startswith ''https://example.com/a/photo.jpg'' ''data:''
      \<and> \<not> mapped (resource_mapping fresh_musician) ''https://example.com/a/photo.jpg''
      \<and> get_response (always (Response 404 []) HeadRaises) ''https://example.com/a/photo.jpg''
           (count_list (requests fresh_musician) ''https://example.com/a/photo.jpg'')
         = Response 404 []"
    by (simp add: py_startswith_def mapped_def fresh_musician_def always_def)
  have w: "download_resource_start cpython ''https://a.example/logo.png'' fresh_website
       = (Fetch ''https://a.example/logo.png'' ''images/logo.png'' ''dist/images/logo.png'',
          fresh_website\<lparr>dirs := [''dist/images'']\<rparr>)
      \<and> (\<forall>k. \<exists>b. get_response (always (Response 404 []) HeadRaises)
                     ''https://a.example/logo.png'' k = Response 404 b)"
    by (simp add: logo_start always_def)
  note t = not_found_musician_once_website_thrice
    [of "''https://example.com/a/photo.jpg''" fresh_musician "always (Response 404 []) HeadRaises"
        "[]" cpython "''https://a.example/logo.png''" fresh_website "''https://a.example/logo.png''"
        "''images/logo.png''" "''dist/images/logo.png''"
        "fresh_website\<lparr>dirs := [''dist/images'']\<rparr>"]
  from t m w show ?thesis by simp
qed

text \<open>
  Claim C4 as stated fails for \<open>WebsiteDownloader\<close>: a resource that answers 404 is
  requested three times.
\<close>

theorem website_requests_not_found_three_times:
  "requests (snd (download_resource cpython (always (Response 404 []) HeadRaises)
                    ''https://a.example/logo.png'' fresh_website))
     = [''https://a.example/logo.png'', ''https://a.example/logo.png'',
        ''https://a.example/logo.png'']"
  unfolding download_resource_def logo_start
  by (simp add: download_resource_finish_def numeral_3_eq_3 always_def fresh_website_def)

section \<open>Uniqueness of local paths\<close>

text \<open>
  Claim C1 fails on the code. \<open>download_resource\<close> checks a candidate path against the
  files on disk and the mapped paths, and both are still as they were when every task of
  \<open>asyncio.gather\<close> makes that check. Two URLs with the same file name, both fetched with
  success into an empty output directory, are mapped to the same local path.
\<close>

theorem website_gather_maps_two_urls_to_one_path:
  "resource_mapping
     (snd (gather_download_resource cpython (always (Response 200 [0x89, 0x50]) HeadRaises)
             [''https://a.example/logo.png'', ''https://b.example/logo.png'']
             fresh_website))
   = [(''https://a.example/logo.png'', ''images/logo.png''),
      (''https://b.example/logo.png'', ''images/logo.png'')]"
proof -
  have b: "download_resource_start cpython ''https://b.example/logo.png''
             (fresh_website\<lparr>dirs := [''dist/images'']\<rparr>)
           = (Fetch ''https://b.example/logo.png'' ''images/logo.png'' ''dist/images/logo.png'',
              fresh_website\<lparr>dirs := [''dist/images'']\<rparr>)"
    by (subst logo_start_b) (simp_all add: fresh_website_def path_exists_def makedirs_def)
  show ?thesis
    unfolding gather_download_resource_def
    by (simp add: logo_start b)
       (simp add: download_resource_finish_def numeral_3_eq_3 always_def fresh_website_def)
qed

section \<open>Classification\<close>

text \<open>
  Claim C7, as the code has it. \<open>WebsiteDownloader.get_file_type_info\<close> decides by the
  content type when there is one, whatever the path, and by the extension of the path
  otherwise; with no content type and no extension that it knows, it gives no category, and
  \<open>download_resource\<close> then returns the URL without a request. The category \<open>other\<close> is
  the one of a content type that is none of image, stylesheet, script and font.
  \<open>MusicianDownloader.get_local_path\<close> looks at the extension only, and stores under
  \<open>other\<close> every URL whose extension it does not know. Neither downloader requests a
  \<open>data:\<close> URL.
\<close>

theorem classification_by_type_then_extension:
  "(ct \<noteq> [] \<longrightarrow>
      get_file_type_info lib (Some ct) path \<noteq> None
      \<and> get_file_type_info lib (Some ct) path = get_file_type_info lib (Some ct) path')
   \<and> (ct \<noteq> [] \<and> \<not> py_startswith ct ''image/'' \<and> \<not> py_startswith ct ''text/css''
        \<and> \<not> py_startswith ct ''application/javascript''
        \<and> \<not> py_startswith ct ''text/javascript''
        \<and> \<not> py_startswith ct ''font/'' \<and> \<not> py_startswith ct ''application/font''
      \<longrightarrow> get_file_type_info lib (Some ct) path = Some (''other'', []))
   \<and> (get_file_type_info lib None path = None \<longleftrightarrow> snd (splitext path) \<notin> set known_exts)
   \<and> (urlparse_path lib url0 = Some p \<and> guess_type lib (clean_url url0) = None
        \<and> snd (splitext p) \<notin> set known_exts
      \<longrightarrow> download_resource lib net url0 w = (clean_url url0, w))
   \<and> (url \<noteq> [] \<and> \<not> py_startswith url ''data:'' \<and> urlparse_path lib url = Some q
        \<and> py_lower (snd (splitext (basename (py_lstrip ''/'' q)))) \<notin> set musician_exts
      \<longrightarrow> get_local_path lib net st url =
            Inr (Some (path_join (path_join (output_dir st) ''other'')
                         (unique_name lib url (basename (py_lstrip ''/'' q))))))
   \<and> (url \<noteq> [] \<and> \<not> py_startswith url ''data:'' \<and> \<not> mapped (resource_mapping st) url
        \<and> urlparse_path lib url = Some q
        \<and> py_lower (snd (splitext (basename (py_lstrip ''/'' q)))) \<notin> set musician_exts
        \<and> get_response net url (count_list (requests st) url) = Response 200 content
        \<and> content \<noteq> []
      \<longrightarrow> (\<exists>st'. download_single_resource lib net url st = Some st'
             \<and> requests st' = requests st @ [url]
             \<and> map_of (resource_mapping st') url
                 = Some (''other/'' @ unique_name lib url (basename (py_lstrip ''/'' q)))))
   \<and> (py_startswith url0 ''data:'' \<longrightarrow> snd (download_resource lib net url0 w) = w)
   \<and> (py_startswith url ''data:'' \<longrightarrow>
        download_single_resource lib net url st = Some st
        \<and> get_local_path lib net st url = Inr None)"
proof (intro conjI impI)
  assume "ct \<noteq> []"
  then show "get_file_type_info lib (Some ct) path \<noteq> None"
    and "get_file_type_info lib (Some ct) path = get_file_type_info lib (Some ct) path'"
    by (rule get_file_type_info_Some)+
next
  assume "ct \<noteq> [] \<and> \<not> py_startswith ct ''image/'' \<and> \<not> py_startswith ct ''text/css''
        \<and> \<not> py_startswith ct ''application/javascript''
        \<and> \<not> py_startswith ct ''text/javascript''
        \<and> \<not> py_startswith ct ''font/'' \<and> \<not> py_startswith ct ''application/font''"
  then show "get_file_type_info lib (Some ct) path = Some (''other'', [])"
    using get_file_type_info_other [of ct lib path] by blast
next
  show "get_file_type_info lib None path = None \<longleftrightarrow> snd (splitext path) \<notin> set known_exts"
    by (rule get_file_type_info_None)
next
  assume a: "urlparse_path lib url0 = Some p \<and> guess_type lib (clean_url url0) = None
        \<and> snd (splitext p) \<notin> set known_exts"
  then have "get_file_type_info lib (guess_type lib (clean_url url0)) p = None"
    by (simp add: get_file_type_info_None)
  with a show "download_resource lib net url0 w = (clean_url url0, w)"
    using start_skips_unclassified [of lib url0 p net w] by blast
next
  assume "url \<noteq> [] \<and> \<not> py_startswith url ''data:'' \<and> urlparse_path lib url = Some q
        \<and> py_lower (snd (splitext (basename (py_lstrip ''/'' q)))) \<notin> set musician_exts"
  then show "get_local_path lib net st url =
            Inr (Some (path_join (path_join (output_dir st) ''other'')
                         (unique_name lib url (basename (py_lstrip ''/'' q)))))"
    using get_local_path_other [of url lib q net st] by blast
next
  assume "url \<noteq> [] \<and> \<not> py_startswith url ''data:'' \<and> \<not> mapped (resource_mapping st) url
        \<and> urlparse_path lib url = Some q
        \<and> py_lower (snd (splitext (basename (py_lstrip ''/'' q)))) \<notin> set musician_exts
        \<and> get_response net url (count_list (requests st) url) = Response 200 content
        \<and> content \<noteq> []"
  then show "\<exists>st'. download_single_resource lib net url st = Some st'
             \<and> requests st' = requests st @ [url]
             \<and> map_of (resource_mapping st') url
                 = Some (''other/'' @ unique_name lib url (basename (py_lstrip ''/'' q)))"
    using musician_other_fetched [of url st lib q net content] by blast
next
  assume "py_startswith url0 ''data:''"
  from start_skips_data [OF this, of lib net w]
  show "snd (download_resource lib net url0 w) = w"
    by (elim disjE) simp_all
next
  assume d: "py_startswith url ''data:''"
  show "download_single_resource lib net url st = Some st"
    using d by (rule musician_skips_data)
  show "get_local_path lib net st url = Inr None"
    using d by (rule musician_skips_data)
qed

theorem classification_by_type_then_extension_witness:
  "get_file_type_info cpython (Some ''image/png'') ''/a.css''
     = get_file_type_info cpython (Some ''image/png'') ''/b.js''
   \<and> download_resource cpython (always (Response 200 [1]) HeadRaises)
        ''https://example.com/download'' fresh_website
     = (''https://example.com/download'', fresh_website)
   \<and> (\<exists>st'. download_single_resource cpython (always (Response 200 [1]) HeadRaises)
               ''https://example.com/download'' fresh_musician = Some st'
            \<and> requests st' = requests fresh_musician @ [''https://example.com/download'']
            \<and> map_of (resource_mapping st') ''https://example.com/download''
                = Some (''other/'' @ unique_name cpython ''https://example.com/download''
                                       (basename (py_lstrip ''/'' ''/download''))))
   \<and> snd (download_resource cpython (always (Response 200 [1]) HeadRaises)
             ''data:image/png;base64,AAAA'' fresh_website) = fresh_website
   \<and> download_single_resource cpython (always (Response 200 [1]) HeadRaises)
        ''data:image/png;base64,AAAA'' fresh_musician = Some fresh_musician"
proof -
  have d: "py_startswith ''data:image/png;base64,AAAA'' ''data:''"
    by (simp add: py_startswith_def)
  have e: "\<not> py_startswith ''https://example.com/download'' ''data:''"
    by (simp add: py_startswith_def)
  have u: "''https://example.com/download'' \<noteq> []" by simp
  have m: "\<not> mapped (resource_mapping fresh_musician) ''https://example.com/download''"
    by (simp add: mapped_def fresh_musician_def)
  have g: "get_response (always (Response 200 [1]) HeadRaises) ''https://example.com/download''
             (count_list (requests fresh_musician) ''https://example.com/download'')
           = Response 200 [1]"
    "[1 :: 8 word] \<noteq> []"
    by (simp_all add: always_def)
  have n: "guess_type cpython (clean_url ''https://example.com/download'') = None"
    by (simp add: download_facts)
  note t1 = classification_by_type_then_extension
    [where ct = "''image/png''" and lib = cpython and path = "''/a.css''" and path' = "''/b.js''"
       and ?url0.0 = "''https://example.com/download''" and p = "''/download''"
       and net = "always (Response 200 [1]) HeadRaises" and w = fresh_website
       and url = "''https://example.com/download''" and q = "''/download''"
       and st = fresh_musician and content = "[1]"]
  note t2 = classification_by_type_then_extension
    [where ct = "''image/png''" and lib = cpython and path = "''/a.css''" and path' = "''/b.js''"
       and ?url0.0 = "''data:image/png;base64,AAAA''" and p = "''/download''"
       and net = "always (Response 200 [1]) HeadRaises" and w = fresh_website
       and url = "''data:image/png;base64,AAAA''" and q = "''/download''"
       and st = fresh_musician and content = "[1]"]
  have c1: "get_file_type_info cpython (Some ''image/png'') ''/a.css''
     = get_file_type_info cpython (Some ''image/png'') ''/b.js''"
    using t1 by blast
  have c2: "download_resource cpython (always (Response 200 [1]) HeadRaises)
        ''https://example.com/download'' fresh_website
     = (clean_url ''https://example.com/download'', fresh_website)"
    using t1 n download_facts(1) download_facts(4) by blast
  have c3: "\<exists>st'. download_single_resource cpython (always (Response 200 [1]) HeadRaises)
               ''https://example.com/download'' fresh_musician = Some st'
            \<and> requests st' = requests fresh_musician @ [''https://example.com/download'']
            \<and> map_of (resource_mapping st') ''https://example.com/download''
                = Some (''other/'' @ unique_name cpython ''https://example.com/download''
                                       (basename (py_lstrip ''/'' ''/download'')))"
    using t1 u e m g download_facts(1) download_facts(5) by blast
  have c4: "snd (download_resource cpython (always (Response 200 [1]) HeadRaises)
             ''data:image/png;base64,AAAA'' fresh_website) = fresh_website"
    using t2 d by blast
  have c5: "download_single_resource cpython (always (Response 200 [1]) HeadRaises)
        ''data:image/png;base64,AAAA'' fresh_musician = Some fresh_musician"
    using t2 d by blast
  from c1 c2 c3 c4 c5 show ?thesis
    by (simp only: download_facts(2) simp_thms)
qed

text \<open>
  Claim C7 as stated fails for \<open>WebsiteDownloader\<close>: a URL with no guessable type and no
  extension gets no category and is not requested, though the server would answer.
\<close>

theorem website_skips_unclassified_url:
  "download_resource cpython (always (Response 200 [1]) HeadRaises)
     ''https://example.com/download'' fresh_website
   = (''https://example.com/download'', fresh_website)"
  by (subst start_skips_unclassified [where p = "''/download''"])
     (simp_all add: download_facts get_file_type_info_None)

section \<open>Rewriting \<open>srcset\<close> and \<open>style\<close>\<close>

text \<open>
  Claim C2, as the code has it. When \<open>process_html\<close> returns a document, its \<open>srcset\<close>
  attributes are those of the input, in document order and on elements of the same tags,
  each changed as \<open>srcset_after\<close> says. On a \<open>source\<close> element with a non-empty
  \<open>srcset\<close>: when at least one entry is mapped, the value becomes the list of the mapped
  entries, each its local path, a space and its descriptor, joined by a comma and a space,
  and the unmapped entries are dropped; when no entry is mapped the value is kept; and the
  value so obtained, when it is itself a key of the mapping, is replaced by its image. The
  \<open>srcset\<close> of every other element is left as it is. \<open>WebsiteDownloader\<close> first removes
  the \<open>meta\<close> and \<open>link\<close> elements of the site builder, and reads the mapping as its
  loop over the scripts leaves it. When every entry of these \<open>srcset\<close> attributes holds a
  URL, \<open>MusicianDownloader.process_html\<close> does not raise \<open>ValueError\<close>, and
  \<open>WebsiteDownloader.process_html\<close> returns a document as long as \<open>urlparse\<close> accepts the
  URLs of the scripts.
\<close>

theorem srcset_after_process_html:
  "(musician_process_html init_js st doc = (Inr doc', st')
      \<longrightarrow> srcset_values doc' = map (srcset_after (resource_mapping st)) (srcset_values doc))
   \<and> (well_formed_srcsets doc
      \<longrightarrow> fst (musician_process_html init_js st doc) \<noteq> Inl ValueError)
   \<and> (website_process_html lib w doc = (Inr wdoc', w')
      \<longrightarrow> srcset_values wdoc'
            = map (srcset_after (resource_mapping w'))
                (srcset_values (decompose_all removed_by_website doc)))
   \<and> (well_formed_srcsets doc \<and> list_all (\<lambda>u. urlparse_path lib u \<noteq> None) (script_urls doc)
      \<longrightarrow> (\<exists>d. fst (website_process_html lib w doc) = Inr d))"
  using musician_process_html_srcset [of init_js st doc doc' st']
    website_process_html_srcset [of lib w doc wdoc' w']
  by blast

theorem srcset_after_process_html_witness:
  "(\<exists>doc'. fst (musician_process_html ''init()''
                 (fresh_musician\<lparr>resource_mapping := srcset_mapping\<rparr>) srcset_page) = Inr doc'
          \<and> srcset_values doc'
              = [(''source'', ''images/a_1.jpg 1x''),
                 (''source'', ''images/a_1.jpg 1x, images/c.jpg 640w''),
                 (''source'', ''f.jpg''), (''img'', ''a.jpg 1x'')])
   \<and> (\<exists>doc'. fst (website_process_html cpython
                 (fresh_website\<lparr>resource_mapping := srcset_mapping\<rparr>) srcset_page) = Inr doc'
          \<and> srcset_values doc'
              = [(''source'', ''images/a_1.jpg 1x''),
                 (''source'', ''images/a_1.jpg 1x, images/c.jpg 640w''),
                 (''source'', ''f.jpg''), (''img'', ''a.jpg 1x'')])"
proof -
  let ?st = "fresh_musician\<lparr>resource_mapping := srcset_mapping\<rparr>"
  let ?w = "fresh_website\<lparr>resource_mapping := srcset_mapping\<rparr>"
  obtain d1 where f1: "fst (musician_process_html ''init()'' ?st srcset_page) = Inr d1"
    using srcset_page_facts(1)
    by (cases "fst (musician_process_html ''init()'' ?st srcset_page)") simp_all
  obtain s1 where m: "musician_process_html ''init()'' ?st srcset_page = (Inr d1, s1)"
    using f1 by (cases "musician_process_html ''init()'' ?st srcset_page") simp
  have w0: "well_formed_srcsets srcset_page
      \<and> list_all (\<lambda>u. urlparse_path cpython u \<noteq> None) (script_urls srcset_page)"
    by (simp only: srcset_page_facts simp_thms)
  have t: "(website_process_html cpython ?w srcset_page = (Inr d2, w2)
      \<longrightarrow> srcset_values d2 = map (srcset_after (resource_mapping w2))
                (srcset_values (decompose_all removed_by_website srcset_page)))
     \<and> (\<exists>d. fst (website_process_html cpython ?w srcset_page) = Inr d)" for d2 w2
    using srcset_after_process_html
      [where init_js = "''init()''" and st = ?st and doc = srcset_page and doc' = d1 and st' = s1
         and lib = cpython and w = ?w and wdoc' = d2 and w' = w2] w0
    by blast
  have a: "srcset_values d1 = map (srcset_after srcset_mapping) (srcset_values srcset_page)"
    using srcset_after_process_html
      [where init_js = "''init()''" and st = ?st and doc = srcset_page and doc' = d1 and st' = s1
         and lib = cpython and w = ?w] m
    by simp
  from t obtain d2 where f2: "fst (website_process_html cpython ?w srcset_page) = Inr d2"
    by blast
  then have r2: "website_process_html cpython ?w srcset_page
      = (Inr d2, snd (website_process_html cpython ?w srcset_page))"
    by (cases "website_process_html cpython ?w srcset_page") simp
  from t [of d2 "snd (website_process_html cpython ?w srcset_page)"] r2
  have b: "srcset_values d2 = map (srcset_after srcset_mapping) (srcset_values srcset_page)"
    by (simp add: srcset_page_facts(3,5))
  from f1 a f2 b show ?thesis
    by (simp add: srcset_page_facts(4))
qed

text \<open>
  Claim C2 as stated fails in both downloaders: with \<open>a.jpg\<close> mapped, a \<open>source\<close> whose
  \<open>srcset\<close> is \<open>b.jpg 2x\<close> keeps its unmapped entry, and an \<open>img\<close> whose \<open>srcset\<close> is
  \<open>a.jpg 1x\<close> keeps its mapped entry as it was.
\<close>

theorem process_html_keeps_unmapped_srcset:
  "musician_process_html ''init()''
     (fresh_musician\<lparr>resource_mapping := [(''a.jpg'', ''images/a_1.jpg'')]\<rparr>)
     [Element ''html'' []
        [Element ''body'' []
           [Element ''source'' [(''srcset'', ''b.jpg 2x'')] [],
            Element ''img'' [(''srcset'', ''a.jpg 1x'')] []]]]
   = (Inr [Element ''html'' []
        [Element ''body'' []
           [Element ''source'' [(''srcset'', ''b.jpg 2x'')] [],
            Element ''img'' [(''srcset'', ''a.jpg 1x'')] [],
            Element ''script'' [] [Text ''init()'']]]],
      fresh_musician\<lparr>resource_mapping := [(''a.jpg'', ''images/a_1.jpg'')]\<rparr>)
   \<and> website_process_html cpython
     (fresh_website\<lparr>resource_mapping := [(''a.jpg'', ''images/a_1.jpg'')]\<rparr>)
     [Element ''html'' []
        [Element ''body'' []
           [Element ''source'' [(''srcset'', ''b.jpg 2x'')] [],
            Element ''img'' [(''srcset'', ''a.jpg 1x'')] []]]]
   = (Inr [Element ''html'' []
        [Element ''body'' []
           [Element ''source'' [(''srcset'', ''b.jpg 2x'')] [],
            Element ''img'' [(''srcset'', ''a.jpg 1x'')] []]]],
      fresh_website\<lparr>resource_mapping := [(''a.jpg'', ''images/a_1.jpg'')]\<rparr>)"
  by code_simp




section \<open>The mapping during \<open>process_html\<close>\<close>

text \<open>
  Claim C6, as the code has it. \<open>MusicianDownloader.process_html\<close> leaves the downloader,
  and so the mapping, as it was. \<open>WebsiteDownloader.process_html\<close> leaves the downloader
  as its first loop does, which is \<open>queue_scripts\<close> over the scripts of the site builder in
  the document: every entry of the mapping keeps its value; a key that is new after the
  pass is the URL of such a script, is mapped to \<open>js/\<close> followed by the base name of its
  path, and is in \<open>resources_to_download\<close>; and when \<open>urlparse\<close> accepts the URLs of all
  these scripts, every one of them that was not mapped is mapped and queued so. The files,
  the directories, the requests sent and \<open>downloaded_urls\<close> stay as they were.
\<close>

theorem process_html_mapping_change:
  "snd (musician_process_html init_js st doc) = st
   \<and> snd (website_process_html lib w doc) = snd (queue_scripts lib (script_urls doc) w)
   \<and> (map_of (resource_mapping w) k = Some v \<longrightarrow>
        map_of (resource_mapping (snd (website_process_html lib w doc))) k = Some v)
   \<and> (\<not> mapped (resource_mapping w) k
        \<and> mapped (resource_mapping (snd (website_process_html lib w doc))) k \<longrightarrow>
        k \<in> set (script_urls doc)
        \<and> (\<exists>p. urlparse_path lib k = Some p
               \<and> map_of (resource_mapping (snd (website_process_html lib w doc))) k
                   = Some (''js/'' @ basename p))
        \<and> k \<in> set (resources_to_download (snd (website_process_html lib w doc))))
   \<and> (list_all (\<lambda>u. urlparse_path lib u \<noteq> None) (script_urls doc)
        \<and> k \<in> set (script_urls doc) \<and> \<not> mapped (resource_mapping w) k \<longrightarrow>
        (\<exists>p. urlparse_path lib k = Some p
            \<and> map_of (resource_mapping (snd (website_process_html lib w doc))) k
                = Some (''js/'' @ basename p))
        \<and> k \<in> set (resources_to_download (snd (website_process_html lib w doc))))
   \<and> files (snd (website_process_html lib w doc)) = files w
   \<and> dirs (snd (website_process_html lib w doc)) = dirs w
   \<and> requests (snd (website_process_html lib w doc)) = requests w
   \<and> downloaded_urls (snd (website_process_html lib w doc)) = downloaded_urls w"
proof -
  let ?w' = "snd (website_process_html lib w doc)"
  have m: "snd (musician_process_html init_js st doc) = st"
    by (simp add: musician_process_html_def Let_def split: sum.splits option.splits)
  have q: "?w' = snd (queue_scripts lib (script_urls doc) w)"
    by (rule website_process_html_state)
  have keep: "map_of (resource_mapping w) k = Some v \<longrightarrow> map_of (resource_mapping ?w') k = Some v"
    unfolding q using queue_scripts_keeps [of w k v lib "script_urls doc"] by blast
  have new: "\<not> mapped (resource_mapping w) k \<and> mapped (resource_mapping ?w') k \<longrightarrow>
        k \<in> set (script_urls doc)
        \<and> (\<exists>p. urlparse_path lib k = Some p
               \<and> map_of (resource_mapping ?w') k = Some (''js/'' @ basename p))
        \<and> k \<in> set (resources_to_download ?w')"
    unfolding q using queue_scripts_new [of w k lib "script_urls doc"] by blast
  have all: "list_all (\<lambda>u. urlparse_path lib u \<noteq> None) (script_urls doc)
        \<and> k \<in> set (script_urls doc) \<and> \<not> mapped (resource_mapping w) k \<longrightarrow>
        (\<exists>p. urlparse_path lib k = Some p
            \<and> map_of (resource_mapping ?w') k = Some (''js/'' @ basename p))
        \<and> k \<in> set (resources_to_download ?w')"
    unfolding q
    using queue_scripts_complete [of lib "script_urls doc" k w]
      queue_scripts_new [of w k lib "script_urls doc"]
    by blast
  have frame: "files ?w' = files w" "dirs ?w' = dirs w" "requests ?w' = requests w"
    "downloaded_urls ?w' = downloaded_urls w"
    unfolding q using queue_scripts_frame [of lib "script_urls doc" w] by blast+
  from m q keep new all frame show ?thesis by blast
qed

theorem process_html_mapping_change_witness:
  "musician_process_html ''init()''
     (fresh_musician\<lparr>resource_mapping := [(''a.jpg'', ''images/a.jpg'')]\<rparr>) tilda_page
   = (Inr [Element ''html'' []
        [Element ''head'' []
           [viewport_meta,
            Element ''script''
              [(''src'', ''https://static.tildacdn.com/js/tilda-scripts-3.0.min.js'')] []],
         Element ''body'' []
           [Element ''img'' [(''src'', ''images/a.jpg'')] [],
            Element ''script'' [] [Text ''init()'']]]],
      fresh_musician\<lparr>resource_mapping := [(''a.jpg'', ''images/a.jpg'')]\<rparr>)
   \<and> map_of (resource_mapping
        (snd (website_process_html cpython
               (fresh_website\<lparr>resource_mapping := [(''a.jpg'', ''images/a.jpg'')]\<rparr>)
               tilda_page)))
       ''a.jpg'' = Some ''images/a.jpg''
   \<and> map_of (resource_mapping
        (snd (website_process_html cpython
               (fresh_website\<lparr>resource_mapping := [(''a.jpg'', ''images/a.jpg'')]\<rparr>)
               tilda_page)))
       ''https://static.tildacdn.com/js/tilda-scripts-3.0.min.js''
       = Some ''js/tilda-scripts-3.0.min.js''
   \<and> ''https://static.tildacdn.com/js/tilda-scripts-3.0.min.js''
       \<in> set (resources_to_download
         (snd (website_process_html cpython
               (fresh_website\<lparr>resource_mapping := [(''a.jpg'', ''images/a.jpg'')]\<rparr>)
               tilda_page)))"
proof -
  let ?st = "fresh_musician\<lparr>resource_mapping := [(''a.jpg'', ''images/a.jpg'')]\<rparr>"
  let ?w = "fresh_website\<lparr>resource_mapping := [(''a.jpg'', ''images/a.jpg'')]\<rparr>"
  let ?u = "''https://static.tildacdn.com/js/tilda-scripts-3.0.min.js''"
  note t = process_html_mapping_change
    [where st = ?st and init_js = "''init()''" and doc = tilda_page and lib = cpython and w = ?w]
  have s: "snd (musician_process_html ''init()'' ?st tilda_page) = ?st"
    using t [of "''a.jpg''" "''images/a.jpg''"] by blast
  have a: "map_of (resource_mapping (snd (website_process_html cpython ?w tilda_page))) ''a.jpg''
      = Some ''images/a.jpg''"
  proof -
    have "map_of (resource_mapping ?w) ''a.jpg'' = Some ''images/a.jpg''" by simp
    with t [of "''a.jpg''" "''images/a.jpg''"] show ?thesis by blast
  qed
  have h: "list_all (\<lambda>u. urlparse_path cpython u \<noteq> None) (script_urls tilda_page)
      \<and> ?u \<in> set (script_urls tilda_page) \<and> \<not> mapped (resource_mapping ?w) ?u"
    by (simp add: tilda_page_facts)
  from t [of ?u] h
  have b: "(\<exists>p. urlparse_path cpython ?u = Some p
            \<and> map_of (resource_mapping (snd (website_process_html cpython ?w tilda_page))) ?u
                = Some (''js/'' @ basename p))
        \<and> ?u \<in> set (resources_to_download (snd (website_process_html cpython ?w tilda_page)))"
    by blast
  then have c: "map_of (resource_mapping (snd (website_process_html cpython ?w tilda_page))) ?u
                = Some ''js/tilda-scripts-3.0.min.js''"
    by (auto simp add: tilda_page_facts(2,3))
  have f: "musician_process_html ''init()'' ?st tilda_page
      = (fst (musician_process_html ''init()'' ?st tilda_page),
         snd (musician_process_html ''init()'' ?st tilda_page))"
    by simp
  show ?thesis
    apply (subst f)
    apply (simp only: s tilda_page_facts(5))
    using a b c apply blast
    done
qed

text \<open>
  Claim C6 as stated fails for \<open>WebsiteDownloader\<close>: rewriting a document with one script
  of the site builder turns the empty mapping into one with an entry.
\<close>

theorem website_process_html_inserts_mapping:
  "resource_mapping fresh_website = []
   \<and> resource_mapping
       (snd (website_process_html cpython fresh_website
               [Element ''script''
                  [(''src'', ''https://static.tildacdn.com/js/tilda-scripts-3.0.min.js'')] []]))
     = [(''https://static.tildacdn.com/js/tilda-scripts-3.0.min.js'',
         ''js/tilda-scripts-3.0.min.js'')]"
proof -
  have "fresh_website = fresh_website\<lparr>resource_mapping := []\<rparr>"
    by (simp add: fresh_website_def)
  then have "localize_script cpython fresh_website ''script''
     [(''src'', ''https://static.tildacdn.com/js/tilda-scripts-3.0.min.js'')]
     = (Inr [(''src'', ''js/tilda-scripts-3.0.min.js'')],
            fresh_website
              \<lparr>resource_mapping :=
                 AList.update ''https://static.tildacdn.com/js/tilda-scripts-3.0.min.js''
                   ''js/tilda-scripts-3.0.min.js'' [],
               resources_to_download :=
                 [''https://static.tildacdn.com/js/tilda-scripts-3.0.min.js'']\<rparr>)"
    using script_facts [of "[]"] by (simp add: mapped_def)
  then show ?thesis
    by (simp add: website_process_html_def Let_def fresh_website_def split: sum.splits prod.splits)
qed

end
